theory Spec2Isabelle
  imports Main "HOL-Library.Char_ord" "HOL-Library.List_Lexorder"
    "HOL-Library.Product_Lexorder" "HOL-Library.Option_ord"
begin

section \<open>Strings\<close>

text \<open>
  Python strings are modelled as \<open>string\<close> (ASCII). Comparison of two strings is
  the lexicographic order of their characters (\<open>List_Lexorder\<close> over \<open>Char_ord\<close>), which
  is how Python and the SQL store compare them. \<open>str.lower\<close> and \<open>str.upper\<close> map the
  ASCII letters and leave every other character alone.
\<close>

definition lower_char :: "char \<Rightarrow> char" where
  "lower_char c =
     (case map_of (zip ''ABCDEFGHIJKLMNOPQRSTUVWXYZ'' ''abcdefghijklmnopqrstuvwxyz'') c of
        Some l \<Rightarrow> l | None \<Rightarrow> c)"

definition lower :: "string \<Rightarrow> string" where
  "lower s = map lower_char s"

definition upper_char :: "char \<Rightarrow> char" where
  "upper_char c =
     (case map_of (zip ''abcdefghijklmnopqrstuvwxyz'' ''ABCDEFGHIJKLMNOPQRSTUVWXYZ'') c of
        Some u \<Rightarrow> u | None \<Rightarrow> c)"

definition upper :: "string \<Rightarrow> string" where
  "upper s = map upper_char s"

section \<open>Errors\<close>

text \<open>
  Every exception the modelled code can raise is a value. \<open>InvalidArgument\<close> and
  \<open>DataMissing\<close> are the specification's names for the errors of the validation helpers
  and of the season lookup; the others are the Python and SQLAlchemy exceptions raised by
  the library calls in \<open>market.py\<close>.
\<close>

datatype error =
    InvalidArgument
  | DataMissing
  | KeyError
  | ValueError
  | OverflowError
  | ZoneInfoNotFoundError
  | MultipleResultsFound
  | AttributeError

section \<open>Dates (datetime.date)\<close>

text \<open>
  A \<open>datetime.date\<close> is represented by its proleptic Gregorian ordinal
  (\<open>date.toordinal()\<close>, 1 for 0001-01-01 up to 3652059 for 9999-12-31). Comparison of
  dates is comparison of ordinals, adding a \<open>timedelta\<close> of whole days adds to the
  ordinal and raises \<open>OverflowError\<close> outside the range, \<open>weekday()\<close> is
  \<open>(toordinal() + 6) % 7\<close>. The conversions between ordinals and (year, month, day)
  follow CPython's \<open>_ymd2ord\<close> and \<open>_ord2ymd\<close>.
\<close>

type_synonym date = int

definition MAXORDINAL :: int where
  "MAXORDINAL = 3652059"

definition is_leap :: "int \<Rightarrow> bool" where
  "is_leap year = (year mod 4 = 0 \<and> (year mod 100 \<noteq> 0 \<or> year mod 400 = 0))"

definition DAYS_IN_MONTH :: "int list" where
  "DAYS_IN_MONTH = [-1, 31, 28, 31, 30, 31, 30, 31, 31, 30, 31, 30, 31]"

definition DAYS_BEFORE_MONTH :: "int list" where
  "DAYS_BEFORE_MONTH = [-1, 0, 31, 59, 90, 120, 151, 181, 212, 243, 273, 304, 334]"

definition days_before_year :: "int \<Rightarrow> int" where
  "days_before_year year =
     (let y = year - 1 in y * 365 + y div 4 - y div 100 + y div 400)"

definition days_before_month :: "int \<Rightarrow> int \<Rightarrow> int" where
  "days_before_month year month =
     DAYS_BEFORE_MONTH ! nat month + (if month > 2 \<and> is_leap year then 1 else 0)"

definition ymd2ord :: "int \<Rightarrow> int \<Rightarrow> int \<Rightarrow> date" where
  "ymd2ord year month day = days_before_year year + days_before_month year month + day"

definition ord2ymd :: "date \<Rightarrow> int \<times> int \<times> int" where
  "ord2ymd ordinal =
     (let n = ordinal - 1;
          n400 = n div 146097; n = n mod 146097;
          year = n400 * 400 + 1;
          n100 = n div 36524; n = n mod 36524;
          n4 = n div 1461; n = n mod 1461;
          n1 = n div 365; n = n mod 365;
          year = year + n100 * 100 + n4 * 4 + n1
      in if n1 = 4 \<or> n100 = 4 then (year - 1, 12, 31)
         else
           let leapyear = (n1 = 3 \<and> (n4 \<noteq> 24 \<or> n100 = 3));
               month = (n + 50) div 32;
               preceding = DAYS_BEFORE_MONTH ! nat month
                             + (if month > 2 \<and> leapyear then 1 else 0)
           in if preceding > n
              then
                let month = month - 1;
                    preceding = preceding
                      - (DAYS_IN_MONTH ! nat month + (if month = 2 \<and> leapyear then 1 else 0))
                in (year, month, n - preceding + 1)
              else (year, month, n - preceding + 1))"

definition date_year :: "date \<Rightarrow> int" where
  "date_year d = fst (ord2ymd d)"

definition date_weekday :: "date \<Rightarrow> int" where
  "date_weekday d = (d + 6) mod 7"

definition date_add :: "date \<Rightarrow> int \<Rightarrow> error + date" where
  "date_add d days =
     (let ordinal = d + days
      in if 0 < ordinal \<and> ordinal \<le> MAXORDINAL then Inr ordinal else Inl OverflowError)"

definition digit_char :: "int \<Rightarrow> char" where
  "digit_char n = ''0123456789'' ! nat (n mod 10)"

definition date_isoformat :: "date \<Rightarrow> string" where
  "date_isoformat d =
     (case ord2ymd d of (y, m, dd) \<Rightarrow>
        [digit_char (y div 1000), digit_char (y div 100), digit_char (y div 10), digit_char y,
         CHR ''-'', digit_char (m div 10), digit_char m,
         CHR ''-'', digit_char (dd div 10), digit_char dd])"

section \<open>Rows of the store and the models built on them\<close>

text \<open>
  The classes \<open>Market\<close>, \<open>Schedule\<close>, \<open>MarketHoliday\<close>, \<open>SeasonDefinition\<close>,
  \<open>PhaseType\<close>, \<open>MicMapping\<close> and \<open>Phase\<close> expose the columns of a row as attributes.
  Each is a record of the attributes that \<open>market.py\<close> reads; a field carries its
  table's prefix since the same column name occurs in several tables. Dates and times
  are ISO-8601 strings at rest; a nullable column is an \<open>option\<close>. \<open>sc_has_season\<close>
  is the \<open>has_season\<close> attribute of a schedule.
\<close>

record market =
  mk_fin_id :: string
  mk_mic :: string
  mk_market_name :: string
  mk_timezone :: string
  mk_replaced_by :: "string option"

record schedule =
  sc_fin_id :: string
  sc_schedule_group :: string
  sc_timezone :: string
  sc_phase_type :: string
  sc_phase_name :: string
  sc_phase_memo :: string
  sc_days :: string
  sc_start :: string
  sc_end :: string
  sc_offset_days :: int
  sc_duration :: int
  sc_in_force_start_date :: "string option"
  sc_in_force_end_date :: "string option"
  sc_has_season :: bool
  sc_season_start :: "string option"
  sc_season_end :: "string option"

record market_holiday =
  mh_fin_id :: string
  mh_date :: string
  mh_holiday_name :: string
  mh_schedule :: string
  mh_settlement :: string
  mh_status :: string
  mh_observed :: string
  mh_memo :: string

record season_definition =
  sd_season :: string
  sd_year :: int
  sd_date :: string

record phase_type =
  pt_name :: string
  pt_status :: string
  pt_settlement :: string

record mic_mapping =
  mm_mic :: string
  mm_fin_id :: string

text \<open>
  A zoned datetime: the local date, the local time of day in seconds after midnight and
  the UTC offset in seconds that the zone gives to that local time. The code stores the
  \<open>isoformat()\<close> rendering of it in the phase; the model keeps the value.
\<close>

record zoned =
  z_date :: date
  z_time :: int
  z_utcoffset :: int

record phase =
  ph_phase_type :: string
  ph_phase_name :: string
  ph_phase_memo :: string
  ph_status :: string
  ph_settlement :: string
  ph_start :: zoned
  ph_end :: zoned

definition instant :: "zoned \<Rightarrow> int" where
  "instant z = z_date z * 86400 + z_time z - z_utcoffset z"

definition local_seconds :: "zoned \<Rightarrow> int" where
  "local_seconds z = z_date z * 86400 + z_time z"

text \<open>The store \<open>db\<close>: the tables as lists of rows, read only.\<close>

record store =
  markets :: "market list"
  schedules :: "schedule list"
  market_holidays :: "market_holiday list"
  season_definitions :: "season_definition list"
  phase_types :: "phase_type list"
  mic_mappings :: "mic_mapping list"

text \<open>
  The helpers that \<open>market.py\<close> imports from modules outside the two source files, and
  the standard-library parsers it calls, are parameters of the model:
  \<open>util.weekdays_match\<close>, \<open>Schedule.is_group_open\<close>, \<open>date.fromisoformat\<close> and
  \<open>time.fromisoformat\<close> (\<open>None\<close> where Python raises \<open>ValueError\<close>), \<open>ZoneInfo\<close>
  (\<open>None\<close> for an unknown key, otherwise the zone's UTC offset in seconds at a local
  date and time), and the validators \<open>validate_str_arg\<close> and \<open>validate_finid_arg\<close>,
  which take the argument's name and its value and return the value to use or raise.
\<close>

record env =
  weekdays_match :: "string \<Rightarrow> int \<Rightarrow> bool"
  is_group_open :: "string \<Rightarrow> bool"
  date_fromisoformat :: "string \<Rightarrow> date option"
  time_fromisoformat :: "string \<Rightarrow> int option"
  zoneinfo :: "string \<Rightarrow> (date \<Rightarrow> int \<Rightarrow> int) option"
  validate_str_arg :: "string \<Rightarrow> string \<Rightarrow> error + string"
  validate_finid_arg :: "string \<Rightarrow> string \<Rightarrow> error + string"

section \<open>Store queries\<close>

text \<open>
  SQLAlchemy's \<open>one_or_none()\<close>: no row is \<open>None\<close>, one row is that row, more rows
  raise \<open>MultipleResultsFound\<close>.
\<close>

definition one_or_none :: "'a list \<Rightarrow> error + 'a option" where
  "one_or_none rows =
     (case rows of [] \<Rightarrow> Inr None | [r] \<Rightarrow> Inr (Some r) | _ \<Rightarrow> Inl MultipleResultsFound)"

text \<open>
  Modelled from the spec: \<open>SeasonDefinition.get\<close> (module \<open>dynamic_models\<close>) is not among
  the source files. The specification: a pure lookup of the (season name, year) pair in
  the season definitions table that fails with \<open>DataMissing\<close> if the pair is absent.
\<close>

definition SeasonDefinition_get ::
  "store \<Rightarrow> string option \<Rightarrow> int \<Rightarrow> error + season_definition" where
  "SeasonDefinition_get st season year =
     (case find (\<lambda>r. Some (sd_season r) = season \<and> sd_year r = year) (season_definitions st) of
        None \<Rightarrow> Inl DataMissing
      | Some r \<Rightarrow> Inr r)"

text \<open>
  Modelled from the spec: \<open>PhaseType.as_dict\<close> is not among the source files. The
  specification looks a phase type up by name; the dictionary maps each name to its row,
  a later row replacing an earlier one of the same name.
\<close>

definition PhaseType_as_dict :: "store \<Rightarrow> (string \<rightharpoonup> phase_type)" where
  "PhaseType_as_dict st = map_of (rev (map (\<lambda>pt. (pt_name pt, pt)) (phase_types st)))"

text \<open>
  Modelled from the spec: \<open>Schedule.is_in_force\<close> is not among the source files. The
  specification keeps a schedule iff \<open>in_force_start_date \<le> date \<le> in_force_end_date\<close>,
  a missing bound being unbounded; the method takes the start and the end of a range.
\<close>

definition is_in_force :: "schedule \<Rightarrow> string \<Rightarrow> string \<Rightarrow> bool" where
  "is_in_force s start_str end_str =
     ((case sc_in_force_start_date s of None \<Rightarrow> True | Some a \<Rightarrow> a \<le> end_str) \<and>
      (case sc_in_force_end_date s of None \<Rightarrow> True | Some b \<Rightarrow> start_str \<le> b))"

section \<open>Market lookup\<close>

text \<open>
  \<open>query_market\<close> is the query \<open>db.query(cls.table).filter(fin_id == finid).one_or_none()\<close>
  that \<open>Market.get_by_finid\<close> runs twice: the second time when the first found a row,
  that row's \<open>replaced_by\<close> is truthy (neither NULL nor empty) and \<open>follow\<close> is set. The
  function returns the market of whatever row is then at hand, or \<open>None\<close>.
\<close>

definition query_market :: "store \<Rightarrow> string \<Rightarrow> error + market option" where
  "query_market st finid = one_or_none (filter (\<lambda>m. mk_fin_id m = finid) (markets st))"

definition get_by_finid :: "env \<Rightarrow> store \<Rightarrow> string \<Rightarrow> bool \<Rightarrow> error + market option" where
  "get_by_finid env st finid follow =
     (case validate_finid_arg env ''finid'' finid of
        Inl e \<Rightarrow> Inl e
      | Inr finid' \<Rightarrow>
          (case query_market st finid' of
             Inl e \<Rightarrow> Inl e
           | Inr None \<Rightarrow> Inr None
           | Inr (Some found) \<Rightarrow>
               (case mk_replaced_by found of
                  None \<Rightarrow> Inr (Some found)
                | Some rb \<Rightarrow>
                    if rb \<noteq> [] \<and> follow
                    then query_market st rb
                    else Inr (Some found))))"



section \<open>The schedule filters\<close>

definition pick_schedule_group ::
  "env \<Rightarrow> date \<Rightarrow> (date \<rightharpoonup> market_holiday) \<Rightarrow> string \<times> bool" where
  "pick_schedule_group env some_date holidays =
     (case holidays some_date of
        Some found \<Rightarrow>
          (let schedule_group = lower (mh_schedule found)
           in (schedule_group, is_group_open env schedule_group))
      | None \<Rightarrow> (''regular'', False))"

definition filter_schedule_group :: "string \<Rightarrow> schedule list \<Rightarrow> schedule list" where
  "filter_schedule_group schedule_group scheds =
     filter (\<lambda>current. lower (sc_schedule_group current) = lower schedule_group) scheds"

definition filter_inforce :: "string \<Rightarrow> schedule list \<Rightarrow> schedule list" where
  "filter_inforce some_date scheds =
     filter (\<lambda>current. is_in_force current some_date some_date) scheds"

text \<open>
  \<open>_filter_season\<close>, one schedule of the loop: the list of what the body yields for it.
  The two conditionals on the season dates, \<open>wrap_branch\<close> (\<open>end_date < start_date\<close> and
  its inner test) and \<open>range_branch\<close>, are written one after the other, as in the source,
  so a schedule for which both held would be yielded twice.
  The season dates are the ISO strings of the season definitions and are compared with
  \<open>some_date.isoformat()\<close>.
\<close>

definition wrap_branch :: "string \<Rightarrow> string \<Rightarrow> string \<Rightarrow> bool" where
  "wrap_branch start_date end_date some_date_str =
     (end_date < start_date \<and> (some_date_str \<le> end_date \<or> some_date_str \<ge> start_date))"

definition range_branch :: "string \<Rightarrow> string \<Rightarrow> string \<Rightarrow> bool" where
  "range_branch start_date end_date some_date_str =
     (some_date_str \<ge> start_date \<and> some_date_str \<le> end_date)"

definition season_yield :: "store \<Rightarrow> date \<Rightarrow> schedule \<Rightarrow> error + schedule list" where
  "season_yield st some_date current =
     (let some_date_str = date_isoformat some_date in
      if \<not> sc_has_season current then Inr [current]
      else
        (case SeasonDefinition_get st (sc_season_start current) (date_year some_date) of
           Inl e \<Rightarrow> Inl e
         | Inr sd \<Rightarrow>
             (case SeasonDefinition_get st (sc_season_end current) (date_year some_date) of
                Inl e \<Rightarrow> Inl e
              | Inr ed \<Rightarrow>
                  (let start_date = sd_date sd; end_date = sd_date ed in
                   Inr ((if wrap_branch start_date end_date some_date_str then [current] else [])
                        @ (if range_branch start_date end_date some_date_str
                           then [current] else []))))))"

fun filter_season :: "store \<Rightarrow> date \<Rightarrow> schedule list \<Rightarrow> error + schedule list" where
  "filter_season st some_date [] = Inr []"
| "filter_season st some_date (current # rest) =
     (case season_yield st some_date current of
        Inl e \<Rightarrow> Inl e
      | Inr ys \<Rightarrow>
          (case filter_season st some_date rest of
             Inl e \<Rightarrow> Inl e
           | Inr zs \<Rightarrow> Inr (ys @ zs)))"

definition filter_weekdays :: "env \<Rightarrow> int \<Rightarrow> schedule list \<Rightarrow> schedule list" where
  "filter_weekdays env weekday scheds =
     filter (\<lambda>current. weekdays_match env (sc_days current) weekday) scheds"

section \<open>The weekday fallback\<close>

text \<open>
  The inner \<open>while\<close> loop of \<open>generate_phases\<close>. Its state is \<open>fallback_schedules\<close> and
  \<open>fallback_weekday\<close>; the model also records, in \<open>tested\<close>, the weekdays the loop has
  filtered against, in order, which does not influence the loop. The loop as written
  need not end for integers outside 0..6, so it is a partial function whose value
  \<open>None\<close> stands for not returning.
\<close>

partial_function (option) fallback_loop ::
  "env \<Rightarrow> schedule list \<Rightarrow> int \<Rightarrow> schedule list \<Rightarrow> int \<Rightarrow> int list
     \<Rightarrow> (schedule list \<times> int list) option" where
  "fallback_loop env before_weekdays current_weekday fallback_schedules fallback_weekday tested =
     (if fallback_schedules = [] \<and> fallback_weekday \<noteq> current_weekday
      then fallback_loop env before_weekdays current_weekday
             (filter (\<lambda>s. weekdays_match env (sc_days s) fallback_weekday) before_weekdays)
             (if fallback_weekday = 0 then 6 else fallback_weekday - 1)
             (tested @ [fallback_weekday])
      else Some (fallback_schedules, tested))"

declare fallback_loop.simps [code]

text \<open>
  The search as a whole: from the statement \<open>if not found_schedules and fallback\<close> to
  \<open>found_schedules = fallback_schedules\<close>, returning the schedules and the weekdays tested.
\<close>

definition fallback_search ::
  "env \<Rightarrow> schedule list \<Rightarrow> int \<Rightarrow> (schedule list \<times> int list) option" where
  "fallback_search env before_weekdays current_weekday =
     fallback_loop env before_weekdays current_weekday []
       (if current_weekday = 0 then 6 else current_weekday - 1) []"

definition found_schedules ::
  "env \<Rightarrow> bool \<Rightarrow> int \<Rightarrow> schedule list \<Rightarrow> schedule list option" where
  "found_schedules env fallback current_weekday before_weekdays =
     (let found = filter_weekdays env current_weekday before_weekdays in
      if found = [] \<and> fallback
      then map_option fst (fallback_search env before_weekdays current_weekday)
      else Some found)"

section \<open>Phase generation\<close>

definition MAX_OFFSET_DAYS :: int where
  "MAX_OFFSET_DAYS = 2"

text \<open>
  How a run of the generator ends: it is exhausted, an exception leaves it, or it never
  returns. The phases yielded before that are kept beside the outcome.
\<close>

datatype outcome = Finished | Raised error | Diverged

text \<open>
  The body of the loop over \<open>found_schedules\<close> for one schedule: \<open>None\<close> when the end
  date precedes \<open>start\<close>, otherwise the phase it yields; the exceptions are those of
  the date addition, \<open>time.fromisoformat\<close>, \<open>ZoneInfo\<close> and the dictionary access,
  in the order of the source.
\<close>

definition phase_of_schedule ::
  "env \<Rightarrow> (string \<rightharpoonup> phase_type) \<Rightarrow> date \<Rightarrow> date \<Rightarrow> schedule \<Rightarrow> error + phase option" where
  "phase_of_schedule env phase_types_dict start current_date current_schedule =
     (let start_date = current_date in
      case date_add current_date (sc_offset_days current_schedule) of
        Inl e \<Rightarrow> Inl e
      | Inr end_date \<Rightarrow>
          if end_date \<ge> start
          then
            (case time_fromisoformat env (sc_start current_schedule) of
               None \<Rightarrow> Inl ValueError
             | Some start_time \<Rightarrow>
                 (case time_fromisoformat env (sc_end current_schedule) of
                    None \<Rightarrow> Inl ValueError
                  | Some end_time \<Rightarrow>
                      (case zoneinfo env (sc_timezone current_schedule) of
                         None \<Rightarrow> Inl ZoneInfoNotFoundError
                       | Some zoneinfo_obj \<Rightarrow>
                           (case phase_types_dict (sc_phase_type current_schedule) of
                              None \<Rightarrow> Inl KeyError
                            | Some phase_type \<Rightarrow>
                                Inr (Some
                                  \<lparr>ph_phase_type = sc_phase_type current_schedule,
                                   ph_phase_name = sc_phase_name current_schedule,
                                   ph_phase_memo = sc_phase_memo current_schedule,
                                   ph_status = pt_status phase_type,
                                   ph_settlement = pt_settlement phase_type,
                                   ph_start = \<lparr>z_date = start_date, z_time = start_time,
                                     z_utcoffset = zoneinfo_obj start_date start_time\<rparr>,
                                   ph_end = \<lparr>z_date = end_date, z_time = end_time,
                                     z_utcoffset = zoneinfo_obj end_date end_time\<rparr>\<rparr>)))))
          else Inr None)"

text \<open>
  What the generator yields is recorded as an emission: the phase together with the
  date and the schedule of the iteration that yielded it.
\<close>

type_synonym emission = "date \<times> schedule \<times> phase"

fun phases_of_schedules ::
  "env \<Rightarrow> (string \<rightharpoonup> phase_type) \<Rightarrow> date \<Rightarrow> date \<Rightarrow> schedule list
     \<Rightarrow> emission list \<times> outcome" where
  "phases_of_schedules env phase_types_dict start current_date [] = ([], Finished)"
| "phases_of_schedules env phase_types_dict start current_date (current_schedule # rest) =
     (case phase_of_schedule env phase_types_dict start current_date current_schedule of
        Inl e \<Rightarrow> ([], Raised e)
      | Inr None \<Rightarrow> phases_of_schedules env phase_types_dict start current_date rest
      | Inr (Some p) \<Rightarrow>
          (case phases_of_schedules env phase_types_dict start current_date rest of
             (es, r) \<Rightarrow> ((current_date, current_schedule, p) # es, r)))"

text \<open>One iteration of the loop over the dates, up to \<open>current_date += 1 day\<close>.\<close>

definition phases_on_date ::
  "env \<Rightarrow> store \<Rightarrow> (string \<rightharpoonup> phase_type) \<Rightarrow> schedule list \<Rightarrow> (date \<rightharpoonup> market_holiday)
     \<Rightarrow> date \<Rightarrow> date \<Rightarrow> emission list \<times> outcome" where
  "phases_on_date env st phase_types_dict all_schedules holidays start current_date =
     (let current_date_str = date_isoformat current_date;
          current_weekday = date_weekday current_date
      in case pick_schedule_group env current_date holidays of
        (schedule_group, fallback) \<Rightarrow>
          (case filter_season st current_date
                  (filter_inforce current_date_str
                     (filter_schedule_group schedule_group all_schedules)) of
             Inl e \<Rightarrow> ([], Raised e)
           | Inr before_weekdays \<Rightarrow>
               (case found_schedules env fallback current_weekday before_weekdays of
                  None \<Rightarrow> ([], Diverged)
                | Some found \<Rightarrow>
                    phases_of_schedules env phase_types_dict start current_date
                      (sort_key (\<lambda>s. (sc_start s, sc_duration s)) found))))"

function generate_loop ::
  "env \<Rightarrow> store \<Rightarrow> (string \<rightharpoonup> phase_type) \<Rightarrow> schedule list \<Rightarrow> (date \<rightharpoonup> market_holiday)
     \<Rightarrow> date \<Rightarrow> date \<Rightarrow> date \<Rightarrow> emission list \<times> outcome" where
  "generate_loop env st phase_types_dict all_schedules holidays start end' current_date =
     (if current_date \<le> end'
      then
        (case phases_on_date env st phase_types_dict all_schedules holidays start current_date of
           (es, Finished) \<Rightarrow>
             (case date_add current_date 1 of
                Inl e \<Rightarrow> (es, Raised e)
              | Inr next_date \<Rightarrow>
                  (case generate_loop env st phase_types_dict all_schedules holidays
                          start end' next_date of
                     (es', r) \<Rightarrow> (es @ es', r)))
         | (es, r) \<Rightarrow> (es, r))
      else ([], Finished))"
  by pat_completeness auto
termination
  by (relation "measure (\<lambda>(env, st, ptd, scheds, hol, start, end', cur). nat (end' + 1 - cur))")
     (auto simp: date_add_def Let_def split: if_splits)

declare generate_loop.simps [simp del]

text \<open>
  Modelled from the spec: \<open>validate_date_arg\<close> and \<open>validate_range_args\<close> (module
  \<open>validate\<close>) are not among the source files. The specification: both arguments are
  coerced to dates, and an unparseable date and \<open>start > end\<close> are \<open>InvalidArgument\<close>.
  An argument is a string or a date (\<open>StrOrDate\<close>).
\<close>

datatype str_or_date = Str string | Date date

definition validate_date_arg :: "env \<Rightarrow> string \<Rightarrow> str_or_date \<Rightarrow> error + date" where
  "validate_date_arg env name value =
     (case value of
        Date d \<Rightarrow> Inr d
      | Str s \<Rightarrow>
          (case date_fromisoformat env s of
             None \<Rightarrow> Inl InvalidArgument
           | Some d \<Rightarrow> Inr d))"

definition validate_range_args :: "date \<Rightarrow> date \<Rightarrow> error + date \<times> date" where
  "validate_range_args start end' =
     (if start > end' then Inl InvalidArgument else Inr (start, end'))"

text \<open>
  The two validations of \<open>generate_phases\<close> and \<open>list_holidays\<close>; Python evaluates the
  arguments of \<open>validate_range_args\<close> from left to right.
\<close>

definition validate_range ::
  "env \<Rightarrow> str_or_date \<Rightarrow> str_or_date \<Rightarrow> error + date \<times> date" where
  "validate_range env start end' =
     (case validate_date_arg env ''start'' start of
        Inl e \<Rightarrow> Inl e
      | Inr s \<Rightarrow>
          (case validate_date_arg env ''end'' end' of
             Inl e \<Rightarrow> Inl e
           | Inr e \<Rightarrow> validate_range_args s e))"

text \<open>
  \<open>list_holidays\<close> returns a list, or with \<open>as_dict\<close> a dictionary keyed by the parsed
  date of each row, a later row replacing an earlier one of the same date.
\<close>

datatype holidays_result =
    HolidayList "market_holiday list"
  | HolidayDict "date \<rightharpoonup> market_holiday"

fun holidays_dict ::
  "env \<Rightarrow> (date \<rightharpoonup> market_holiday) \<Rightarrow> market_holiday list
     \<Rightarrow> error + (date \<rightharpoonup> market_holiday)" where
  "holidays_dict env acc [] = Inr acc"
| "holidays_dict env acc (r # rs) =
     (case date_fromisoformat env (mh_date r) of
        None \<Rightarrow> Inl ValueError
      | Some d \<Rightarrow> holidays_dict env (acc(d \<mapsto> r)) rs)"

definition list_holidays ::
  "env \<Rightarrow> store \<Rightarrow> market \<Rightarrow> str_or_date \<Rightarrow> str_or_date \<Rightarrow> bool \<Rightarrow> error + holidays_result" where
  "list_holidays env st self start end' as_dict =
     (case validate_range env start end' of
        Inl e \<Rightarrow> Inl e
      | Inr (start_date, end_date) \<Rightarrow>
          (let result = filter (\<lambda>r. mh_fin_id r = mk_fin_id self
                                  \<and> mh_date r \<ge> date_isoformat start_date
                                  \<and> mh_date r \<le> date_isoformat end_date)
                          (market_holidays st)
           in if as_dict
              then (case holidays_dict env Map.empty result of
                      Inl e \<Rightarrow> Inl e
                    | Inr d \<Rightarrow> Inr (HolidayDict d))
              else Inr (HolidayList result)))"

text \<open>
  \<open>list_schedules\<close>: the market's schedules in the order of the query's \<open>order_by\<close>,
  NULLs first (\<open>None\<close> is below every \<open>Some\<close>); rows with equal keys keep their order.
\<close>

definition list_schedules :: "store \<Rightarrow> market \<Rightarrow> schedule list" where
  "list_schedules st self =
     sort_key (\<lambda>s. (sc_schedule_group s, sc_in_force_start_date s, sc_season_start s,
                    sc_start s, sc_end s))
       (filter (\<lambda>s. sc_fin_id s = mk_fin_id self) (schedules st))"

text \<open>
  \<open>generate_phases\<close> after its validation: the body from \<open>PhaseType.as_dict()\<close> on.
  \<open>list_holidays\<close> is called with \<open>as_dict=True\<close>; a list in its place would have no
  \<open>get\<close>.
\<close>

definition generate_body ::
  "env \<Rightarrow> store \<Rightarrow> market \<Rightarrow> date \<Rightarrow> date \<Rightarrow> emission list \<times> outcome" where
  "generate_body env st self start end' =
     (let phase_types_dict = PhaseType_as_dict st in
      case date_add start (- MAX_OFFSET_DAYS) of
        Inl e \<Rightarrow> ([], Raised e)
      | Inr offset_start \<Rightarrow>
          (let all_schedules = list_schedules st self in
           case list_holidays env st self (Date offset_start) (Date end') True of
             Inl e \<Rightarrow> ([], Raised e)
           | Inr (HolidayList rows) \<Rightarrow> ([], Raised AttributeError)
           | Inr (HolidayDict holidays) \<Rightarrow>
               generate_loop env st phase_types_dict all_schedules holidays
                 start end' offset_start))"

definition generate_emissions ::
  "env \<Rightarrow> store \<Rightarrow> market \<Rightarrow> str_or_date \<Rightarrow> str_or_date \<Rightarrow> emission list \<times> outcome" where
  "generate_emissions env st self start end' =
     (case validate_range env start end' of
        Inl e \<Rightarrow> ([], Raised e)
      | Inr (start_date, end_date) \<Rightarrow> generate_body env st self start_date end_date)"

text \<open>\<open>generate_phases\<close>: the phases yielded, in order, and how the run ends.\<close>

definition generate_phases ::
  "env \<Rightarrow> store \<Rightarrow> market \<Rightarrow> str_or_date \<Rightarrow> str_or_date \<Rightarrow> phase list \<times> outcome" where
  "generate_phases env st self start end' =
     (case generate_emissions env st self start end' of
        (es, r) \<Rightarrow> (map (\<lambda>(d, s, p). p) es, r))"

section \<open>The specification's words, for comparison\<close>

text \<open>
  Stage 4 of the specification: with \<open>end_date \<ge> start_date\<close> a schedule is kept iff
  \<open>start_date \<le> date \<le> end_date\<close>, with \<open>end_date < start_date\<close> iff
  \<open>date \<le> end_date\<close> or \<open>date \<ge> start_date\<close>; a schedule without a season is kept. Both
  season names are resolved with the year of the date.
\<close>

definition spec_season_keep :: "string \<Rightarrow> string \<Rightarrow> string \<Rightarrow> bool" where
  "spec_season_keep start_date end_date date_str =
     (if end_date \<ge> start_date
      then start_date \<le> date_str \<and> date_str \<le> end_date
      else date_str \<le> end_date \<or> date_str \<ge> start_date)"

definition spec_season_selects :: "store \<Rightarrow> date \<Rightarrow> schedule \<Rightarrow> bool" where
  "spec_season_selects st d s =
     (if sc_has_season s
      then (case (SeasonDefinition_get st (sc_season_start s) (date_year d),
                  SeasonDefinition_get st (sc_season_end s) (date_year d)) of
              (Inr sd, Inr ed) \<Rightarrow> spec_season_keep (sd_date sd) (sd_date ed) (date_isoformat d)
            | _ \<Rightarrow> False)
      else True)"

section \<open>Example data\<close>

text \<open>
  Instances of the parameters for the examples. \<open>iso_date\<close> and \<open>iso_time\<close> are
  \<open>date.fromisoformat\<close> and \<open>time.fromisoformat\<close> on the dataset's formats
  \<open>YYYY-MM-DD\<close> and \<open>HH:MM:SS\<close>, the time of day in seconds after midnight.
  \<open>example_zoneinfo\<close> knows three zones, each with the one offset it has on the dates of
  the examples (none of them a day of a clock change). A group is open unless it is the
  group \<open>closed\<close>, and a FinID is valid as it is.
\<close>

definition digit_value :: "char \<Rightarrow> int option" where
  "digit_value c = map_of (zip ''0123456789'' [0, 1, 2, 3, 4, 5, 6, 7, 8, 9]) c"

fun number_value :: "int \<Rightarrow> string \<Rightarrow> int option" where
  "number_value acc [] = Some acc"
| "number_value acc (c # cs) =
     (case digit_value c of None \<Rightarrow> None | Some v \<Rightarrow> number_value (acc * 10 + v) cs)"

definition iso_date :: "string \<Rightarrow> date option" where
  "iso_date s =
     (if length s = 10 \<and> s ! 4 = CHR ''-'' \<and> s ! 7 = CHR ''-''
      then (case (number_value 0 (take 4 s), number_value 0 (take 2 (drop 5 s)),
                  number_value 0 (drop 8 s)) of
              (Some y, Some m, Some d) \<Rightarrow>
                if 1 \<le> y \<and> 1 \<le> m \<and> m \<le> 12 \<and> 1 \<le> d
                   \<and> d \<le> DAYS_IN_MONTH ! nat m + (if m = 2 \<and> is_leap y then 1 else 0)
                then Some (ymd2ord y m d) else None
            | _ \<Rightarrow> None)
      else None)"

definition iso_time :: "string \<Rightarrow> int option" where
  "iso_time s =
     (if length s = 8 \<and> s ! 2 = CHR '':'' \<and> s ! 5 = CHR '':''
      then (case (number_value 0 (take 2 s), number_value 0 (take 2 (drop 3 s)),
                  number_value 0 (drop 6 s)) of
              (Some h, Some m, Some sec) \<Rightarrow>
                if 0 \<le> h \<and> h < 24 \<and> m < 60 \<and> sec < 60 then Some (h * 3600 + m * 60 + sec) else None
            | _ \<Rightarrow> None)
      else None)"

text \<open>
  Modelled from the spec: \<open>util.weekdays_match\<close> is not among the source files. The
  specification: a pattern is a comma-separated list whose elements are day names
  (\<open>Mon\<close> is weekday 0, \<open>Sun\<close> is 6) or hyphen ranges of them; a range is inclusive and
  wraps (\<open>Fri-Mon\<close> is Friday, Saturday, Sunday, Monday).
\<close>

fun split_on :: "char \<Rightarrow> string \<Rightarrow> string \<Rightarrow> string list" where
  "split_on sep acc [] = [rev acc]"
| "split_on sep acc (c # cs) =
     (if c = sep then rev acc # split_on sep [] cs else split_on sep (c # acc) cs)"

definition day_index :: "string \<Rightarrow> int option" where
  "day_index name =
     map_of [(''Mon'', 0), (''Tue'', 1), (''Wed'', 2), (''Thu'', 3), (''Fri'', 4),
             (''Sat'', 5), (''Sun'', 6)] name"

definition day_element_match :: "string \<Rightarrow> int \<Rightarrow> bool" where
  "day_element_match element weekday =
     (case map day_index (split_on CHR ''-'' [] element) of
        [Some a] \<Rightarrow> weekday = a
      | [Some a, Some b] \<Rightarrow>
          if a \<le> b then a \<le> weekday \<and> weekday \<le> b else weekday \<ge> a \<or> weekday \<le> b
      | _ \<Rightarrow> False)"

definition example_weekdays_match :: "string \<Rightarrow> int \<Rightarrow> bool" where
  "example_weekdays_match days weekday =
     list_ex (\<lambda>element. day_element_match element weekday) (split_on CHR '','' [] days)"

definition example_zoneinfo :: "string \<Rightarrow> (date \<Rightarrow> int \<Rightarrow> int) option" where
  "example_zoneinfo key =
     map_of [(''UTC'', \<lambda>d t. 0), (''America/New_York'', \<lambda>d t. - 18000),
             (''Africa/Johannesburg'', \<lambda>d t. 7200)] key"

text \<open>
  Modelled from the spec: \<open>validate_str_arg\<close> (module \<open>validate\<close>) is not among the
  source files. The specification has the MIC uppercased before the \<open>mic_mappings\<close>
  lookup; \<open>get_by_mic\<close> does nothing to the MIC but validate it, so the validation of the
  argument named \<open>mic\<close> returns it in upper case. The specification says nothing else
  of what the validation of a string returns, so any other argument is returned as it
  is. An argument that is not a string, the specification's \<open>InvalidArgument\<close>, is
  excluded by the type.
\<close>

definition spec_validate_str_arg :: "string \<Rightarrow> string \<Rightarrow> error + string" where
  "spec_validate_str_arg name value = Inr (if name = ''mic'' then upper value else value)"

definition example_env :: env where
  "example_env =
     \<lparr>weekdays_match = example_weekdays_match,
      is_group_open = (\<lambda>group. group \<noteq> ''closed''),
      date_fromisoformat = iso_date,
      time_fromisoformat = iso_time,
      zoneinfo = example_zoneinfo,
      validate_str_arg = spec_validate_str_arg,
      validate_finid_arg = (\<lambda>name value. Inr value)\<rparr>"

definition make_market :: "string \<Rightarrow> string \<Rightarrow> string option \<Rightarrow> market" where
  "make_market finid mic replaced =
     \<lparr>mk_fin_id = finid, mk_mic = mic, mk_market_name = finid,
      mk_timezone = ''UTC'', mk_replaced_by = replaced\<rparr>"

definition make_schedule ::
  "string \<Rightarrow> string \<Rightarrow> string \<Rightarrow> string \<Rightarrow> string \<Rightarrow> string \<Rightarrow> int \<Rightarrow> int \<Rightarrow> schedule" where
  "make_schedule grp ptype pname days start_str end_str offset duration =
     \<lparr>sc_fin_id = ''US.NYSE'', sc_schedule_group = grp,
      sc_timezone = ''America/New_York'', sc_phase_type = ptype,
      sc_phase_name = pname, sc_phase_memo = [], sc_days = days,
      sc_start = start_str, sc_end = end_str, sc_offset_days = offset, sc_duration = duration,
      sc_in_force_start_date = None, sc_in_force_end_date = None,
      sc_has_season = False, sc_season_start = None, sc_season_end = None\<rparr>"

definition lookup_store :: store where
  "lookup_store =
     \<lparr>markets =
        [make_market ''US.NYSE'' ''XNYS'' None,
         make_market ''ZA.JSE.SAFEX'' ''XSFA'' (Some ''ZA.JSE.EQUITIES.DRV''),
         make_market ''ZA.JSE.EQUITIES.DRV'' ''XJSE'' (Some ''ZA.JSE.NEXT''),
         make_market ''ZA.JSE.NEXT'' [] (Some []),
         make_market ''XX.SELF'' [] (Some ''XX.SELF''),
         make_market ''XX.OLD'' [] (Some ''XX.GONE'')],
      schedules = [], market_holidays = [], season_definitions = [], phase_types = [],
      mic_mappings =
        [\<lparr>mm_mic = ''XNYS'', mm_fin_id = ''US.NYSE''\<rparr>,
         \<lparr>mm_mic = ''XSFA'', mm_fin_id = ''ZA.JSE.SAFEX''\<rparr>]\<rparr>"

definition season_store :: store where
  "season_store =
     \<lparr>markets = [], schedules = [], market_holidays = [],
      season_definitions =
        [\<lparr>sd_season = ''First day of December'', sd_year = 2024, sd_date = ''2024-12-01''\<rparr>,
         \<lparr>sd_season = ''Last day of February'', sd_year = 2024, sd_date = ''2024-02-28''\<rparr>],
      phase_types = [], mic_mappings = []\<rparr>"

definition winter_schedule :: schedule where
  "winter_schedule =
     (make_schedule ''Regular'' ''Primary Trading Session'' ''Winter Session'' ''Mon-Fri''
        ''09:30:00'' ''16:00:00'' 0 23400)
     \<lparr>sc_has_season := True,
      sc_season_start := Some ''First day of December'',
      sc_season_end := Some ''Last day of February''\<rparr>"

text \<open>
  A market with a regular day of two sessions (the earlier one in force since 2020, so
  that the store lists it after the later one), an overnight session that ends on the
  next day, an early-close group listed for Wednesdays only, and two holidays: a closed
  Thursday and, on the Friday after it, one that points at the early-close group.
\<close>

definition nyse :: market where
  "nyse = make_market ''US.NYSE'' ''XNYS'' None"

definition phase_store :: store where
  "phase_store =
     \<lparr>markets = [nyse],
      schedules =
        [make_schedule ''Regular'' ''Primary Trading Session'' ''Core Trading Session''
           ''Mon-Fri'' ''09:30:00'' ''16:00:00'' 0 23400,
         (make_schedule ''Regular'' ''Pre-Trading Session'' ''Pre-Opening Session''
            ''Mon-Fri'' ''04:00:00'' ''09:30:00'' 0 19800)
           \<lparr>sc_in_force_start_date := Some ''2020-01-01''\<rparr>,
         make_schedule ''Regular'' ''Post-Trading Session'' ''Overnight Session''
           ''Mon-Thu'' ''20:00:00'' ''04:00:00'' 1 28800,
         make_schedule ''Early Close'' ''Primary Trading Session'' ''Core Trading Session''
           ''Wed'' ''09:30:00'' ''13:00:00'' 0 12600],
      market_holidays =
        [\<lparr>mh_fin_id = ''US.NYSE'', mh_date = ''2024-11-28'',
          mh_holiday_name = ''Thanksgiving Day'', mh_schedule = ''Closed'',
          mh_settlement = ''No'', mh_status = ''Closed'', mh_observed = [], mh_memo = []\<rparr>,
         \<lparr>mh_fin_id = ''US.NYSE'', mh_date = ''2024-11-29'',
          mh_holiday_name = ''Thanksgiving Day'', mh_schedule = ''Early Close'',
          mh_settlement = ''Yes'', mh_status = ''Open'', mh_observed = [], mh_memo = []\<rparr>],
      season_definitions = [],
      phase_types =
        [\<lparr>pt_name = ''Primary Trading Session'', pt_status = ''Open'', pt_settlement = ''Yes''\<rparr>,
         \<lparr>pt_name = ''Pre-Trading Session'', pt_status = ''Closed'', pt_settlement = ''No''\<rparr>,
         \<lparr>pt_name = ''Post-Trading Session'', pt_status = ''Closed'', pt_settlement = ''No''\<rparr>],
      mic_mappings = [\<lparr>mm_mic = ''XNYS'', mm_fin_id = ''US.NYSE''\<rparr>]\<rparr>"

text \<open>A store whose only schedule ends, on the same day, before it starts.\<close>

definition inverted_store :: store where
  "inverted_store =
     \<lparr>markets = [nyse],
      schedules =
        [make_schedule ''Regular'' ''Primary Trading Session'' ''Core Trading Session''
           ''Mon-Fri'' ''10:00:00'' ''09:00:00'' 0 0],
      market_holidays = [],
      season_definitions = [],
      phase_types =
        [\<lparr>pt_name = ''Primary Trading Session'', pt_status = ''Open'', pt_settlement = ''Yes''\<rparr>],
      mic_mappings = []\<rparr>"

section \<open>The fallback of the specification, for comparison\<close>

text \<open>
  The specification's fallback: starting from \<open>(today - 1) mod 7\<close> and decrementing
  modulo 7 until today's weekday comes round again, the post-season set is filtered
  against the weekday, and the first non-empty result is adopted; if there is none the
  result is empty. \<open>earlier_weekdays\<close> lists the six weekdays of that walk.
\<close>

definition earlier_weekdays :: "int \<Rightarrow> int list" where
  "earlier_weekdays today = map (\<lambda>k. (today - k) mod 7) [1, 2, 3, 4, 5, 6]"

definition spec_fallback :: "env \<Rightarrow> schedule list \<Rightarrow> int \<Rightarrow> schedule list" where
  "spec_fallback env before_weekdays today =
     (case find (\<lambda>w. filter_weekdays env w before_weekdays \<noteq> []) (earlier_weekdays today) of
        None \<Rightarrow> []
      | Some w \<Rightarrow> filter_weekdays env w before_weekdays)"

text \<open>
  \<open>backward_chain today w ws\<close>: the list \<open>ws\<close> is the walk of the loop's
  \<open>fallback_weekday\<close> from \<open>w\<close>, by the loop's own decrement, up to but excluding
  \<open>today\<close>.
\<close>

fun backward_chain :: "int \<Rightarrow> int \<Rightarrow> int list \<Rightarrow> bool" where
  "backward_chain today w [] = (w = today)"
| "backward_chain today w (c # cs) =
     (w = c \<and> c \<noteq> today \<and> backward_chain today (if c = 0 then 6 else c - 1) cs)"

text \<open>
  The order of the specification on what is emitted: by date, then by the schedule's start
  time, then by its duration (lexicographic).
\<close>

definition emission_key :: "emission \<Rightarrow> date \<times> string \<times> int" where
  "emission_key e = (case e of (d, s, p) \<Rightarrow> (d, sc_start s, sc_duration s))"


section \<open>The season filter\<close>

lemma branches_exclusive:
  "\<not> (wrap_branch start_date end_date ds \<and> range_branch start_date end_date ds)"
  by (auto simp: wrap_branch_def range_branch_def)

lemma season_yield_once:
  "season_yield st d s = Inr ys \<Longrightarrow> ys = [] \<or> ys = [s]"
  using branches_exclusive[of "sd_date sd" "sd_date ed" "date_isoformat d" for sd ed]
  by (auto simp: season_yield_def Let_def split: if_splits sum.splits)

lemma filter_season_is_filter:
  "filter_season st d xs = Inr zs \<Longrightarrow> zs = filter (\<lambda>s. season_yield st d s = Inr [s]) xs"
proof (induction xs arbitrary: zs)
  case Nil
  then show ?case by simp
next
  case (Cons x xs)
  from Cons.prems obtain ys ws where y: "season_yield st d x = Inr ys"
    and w: "filter_season st d xs = Inr ws" and z: "zs = ys @ ws"
    by (auto split: sum.splits)
  from Cons.IH[OF w] have ws: "ws = filter (\<lambda>s. season_yield st d s = Inr [s]) xs" .
  from season_yield_once[OF y] show ?case
    using y z ws by auto
qed

lemma count_list_filter_le: "count_list (filter P xs) x \<le> count_list xs x"
  by (induction xs) auto

text \<open>
  Claim C9. For every date and every schedule, \<open>_filter_season\<close> yields the schedule at
  most once: the condition of the second conditional, \<open>start_date \<le> date \<le> end_date\<close>,
  cannot hold when \<open>end_date < start_date\<close>, so the wrap-around branch and the in-range
  branch never both fire. The list the filter returns is a sublist of its input chosen by
  a predicate, no schedule occurs in it more often than in the input, and it has no
  duplicates when the input has none.
\<close>

theorem season_filter_yields_at_most_once:
  "\<not> (wrap_branch start_date end_date ds \<and> range_branch start_date end_date ds)
   \<and> (season_yield st d s = Inr ys \<longrightarrow> ys = [] \<or> ys = [s])
   \<and> (filter_season st d xs = Inr zs \<longrightarrow>
        (\<exists>P. zs = filter P xs) \<and> (\<forall>x. count_list zs x \<le> count_list xs x)
        \<and> (distinct xs \<longrightarrow> distinct zs))"
proof (intro conjI impI)
  show "\<not> (wrap_branch start_date end_date ds \<and> range_branch start_date end_date ds)"
    by (rule branches_exclusive)
next
  assume "season_yield st d s = Inr ys"
  then show "ys = [] \<or> ys = [s]" by (rule season_yield_once)
next
  assume h: "filter_season st d xs = Inr zs"
  from filter_season_is_filter[OF h] show "\<exists>P. zs = filter P xs" by blast
next
  assume h: "filter_season st d xs = Inr zs"
  from filter_season_is_filter[OF h] show "\<forall>x. count_list zs x \<le> count_list xs x"
    by (simp add: count_list_filter_le)
next
  assume h: "filter_season st d xs = Inr zs" and "distinct xs"
  with filter_season_is_filter[OF h] show "distinct zs" by simp
qed

theorem season_filter_yields_at_most_once_witness:
  "filter_season season_store (ymd2ord 2024 1 15)
       [winter_schedule, winter_schedule\<lparr>sc_phase_name := ''Other''\<rparr>]
     = Inr [winter_schedule, winter_schedule\<lparr>sc_phase_name := ''Other''\<rparr>]
   \<and> distinct [winter_schedule, winter_schedule\<lparr>sc_phase_name := ''Other''\<rparr>]
   \<and> (\<forall>x. count_list [winter_schedule, winter_schedule\<lparr>sc_phase_name := ''Other''\<rparr>] x
          \<le> count_list [winter_schedule, winter_schedule\<lparr>sc_phase_name := ''Other''\<rparr>] x)"
proof -
  have h: "filter_season season_store (ymd2ord 2024 1 15)
       [winter_schedule, winter_schedule\<lparr>sc_phase_name := ''Other''\<rparr>]
     = Inr [winter_schedule, winter_schedule\<lparr>sc_phase_name := ''Other''\<rparr>]"
    by code_simp
  have d: "distinct [winter_schedule, winter_schedule\<lparr>sc_phase_name := ''Other''\<rparr>]"
    by code_simp
  from season_filter_yields_at_most_once[where st = season_store and d = "ymd2ord 2024 1 15"
      and xs = "[winter_schedule, winter_schedule\<lparr>sc_phase_name := ''Other''\<rparr>]"
      and zs = "[winter_schedule, winter_schedule\<lparr>sc_phase_name := ''Other''\<rparr>]"] h d
  show ?thesis by blast
qed

lemma season_yield_selects:
  "season_yield st d s = Inr ys \<Longrightarrow> ys = (if spec_season_selects st d s then [s] else [])"
  by (auto simp: season_yield_def spec_season_selects_def spec_season_keep_def wrap_branch_def
      range_branch_def Let_def split: if_splits sum.splits)

lemma filter_season_selects:
  "filter_season st d xs = Inr zs \<Longrightarrow> zs = filter (spec_season_selects st d) xs"
proof (induction xs arbitrary: zs)
  case Nil
  then show ?case by simp
next
  case (Cons x xs)
  from Cons.prems obtain ys ws where y: "season_yield st d x = Inr ys"
    and w: "filter_season st d xs = Inr ws" and z: "zs = ys @ ws"
    by (auto split: sum.splits)
  from Cons.IH[OF w] season_yield_selects[OF y] z show ?case by simp
qed

lemma season_yield_returns:
  assumes "sc_has_season s \<longrightarrow>
      (\<exists>sd ed. SeasonDefinition_get st (sc_season_start s) (date_year d) = Inr sd
             \<and> SeasonDefinition_get st (sc_season_end s) (date_year d) = Inr ed)"
  shows "\<exists>ys. season_yield st d s = Inr ys"
  using assms by (auto simp: season_yield_def Let_def)

lemma season_yield_raises:
  assumes "sc_has_season s"
    and "\<not> (\<exists>sd ed. SeasonDefinition_get st (sc_season_start s) (date_year d) = Inr sd
             \<and> SeasonDefinition_get st (sc_season_end s) (date_year d) = Inr ed)"
  shows "\<exists>e. season_yield st d s = Inl e"
  using assms by (auto simp: season_yield_def Let_def split: sum.splits)

lemma filter_season_total:
  assumes "\<forall>s \<in> set xs. sc_has_season s \<longrightarrow>
      (\<exists>sd ed. SeasonDefinition_get st (sc_season_start s) (date_year d) = Inr sd
             \<and> SeasonDefinition_get st (sc_season_end s) (date_year d) = Inr ed)"
  shows "filter_season st d xs = Inr (filter (spec_season_selects st d) xs)"
  using assms
proof (induction xs)
  case Nil
  then show ?case by simp
next
  case (Cons x xs)
  from Cons.prems season_yield_returns[of x st d]
  obtain ys where y: "season_yield st d x = Inr ys" by auto
  from Cons.IH Cons.prems
  have r: "filter_season st d xs = Inr (filter (spec_season_selects st d) xs)" by simp
  from season_yield_selects[OF y] y r show ?case by simp
qed

lemma filter_season_raises:
  assumes "\<exists>s \<in> set xs. sc_has_season s \<and>
      \<not> (\<exists>sd ed. SeasonDefinition_get st (sc_season_start s) (date_year d) = Inr sd
             \<and> SeasonDefinition_get st (sc_season_end s) (date_year d) = Inr ed)"
  shows "\<exists>e. filter_season st d xs = Inl e"
  using assms
proof (induction xs)
  case Nil
  then show ?case by simp
next
  case (Cons x xs)
  show ?case
  proof (cases "season_yield st d x")
    case (Inl e)
    then show ?thesis by simp
  next
    case (Inr ys)
    with season_yield_raises[of x st d]
    have "\<not> (sc_has_season x \<and>
      \<not> (\<exists>sd ed. SeasonDefinition_get st (sc_season_start x) (date_year d) = Inr sd
             \<and> SeasonDefinition_get st (sc_season_end x) (date_year d) = Inr ed))"
      by auto
    with Cons.prems have "\<exists>s \<in> set xs. sc_has_season s \<and>
      \<not> (\<exists>sd ed. SeasonDefinition_get st (sc_season_start s) (date_year d) = Inr sd
             \<and> SeasonDefinition_get st (sc_season_end s) (date_year d) = Inr ed)"
      by auto
    from Cons.IH[OF this] obtain e where "filter_season st d xs = Inl e" by blast
    with Inr show ?thesis by simp
  qed
qed

text \<open>
  Claim C2. The season filter resolves both season names with the year of the date and
  keeps a seasonal schedule iff, with \<open>end_date \<ge> start_date\<close>, the date lies between the
  two, and with \<open>end_date < start_date\<close>, the date is at most \<open>end_date\<close> or at least
  \<open>start_date\<close> (\<open>spec_season_keep\<close>); a schedule without a season is kept. When both
  season names of every seasonal schedule resolve, the filter returns exactly the
  schedules that \<open>spec_season_selects\<close> selects, in their order, and drops the others; it
  raises only when a name does not resolve, and whenever it returns its result is that
  list. The dates are compared as ISO strings, as in the source. For the season from
  December 1 to February 28, January 15 is selected and April 1 is not.
\<close>

theorem season_filter_keeps_in_season:
  "(filter_season st d xs = Inr zs \<longrightarrow> zs = filter (spec_season_selects st d) xs)
   \<and> (\<not> sc_has_season s \<longrightarrow> season_yield st d s = Inr [s])
   \<and> (sc_has_season s
        \<and> SeasonDefinition_get st (sc_season_start s) (date_year d) = Inr sd
        \<and> SeasonDefinition_get st (sc_season_end s) (date_year d) = Inr ed \<longrightarrow>
      season_yield st d s =
        Inr (if spec_season_keep (sd_date sd) (sd_date ed) (date_isoformat d) then [s] else []))
   \<and> season_yield season_store (ymd2ord 2024 1 15) winter_schedule = Inr [winter_schedule]
   \<and> season_yield season_store (ymd2ord 2024 4 1) winter_schedule = Inr []
   \<and> ((\<forall>x \<in> set xs. sc_has_season x \<longrightarrow>
          (\<exists>sd ed. SeasonDefinition_get st (sc_season_start x) (date_year d) = Inr sd
                 \<and> SeasonDefinition_get st (sc_season_end x) (date_year d) = Inr ed)) \<longrightarrow>
        filter_season st d xs = Inr (filter (spec_season_selects st d) xs))
   \<and> ((\<exists>x \<in> set xs. sc_has_season x
          \<and> \<not> (\<exists>sd ed. SeasonDefinition_get st (sc_season_start x) (date_year d) = Inr sd
                     \<and> SeasonDefinition_get st (sc_season_end x) (date_year d) = Inr ed)) \<longrightarrow>
        (\<exists>e. filter_season st d xs = Inl e))"
proof (intro conjI impI)
  assume "filter_season st d xs = Inr zs"
  then show "zs = filter (spec_season_selects st d) xs" by (rule filter_season_selects)
next
  assume "\<not> sc_has_season s"
  then show "season_yield st d s = Inr [s]" by (simp add: season_yield_def)
next
  assume "sc_has_season s
        \<and> SeasonDefinition_get st (sc_season_start s) (date_year d) = Inr sd
        \<and> SeasonDefinition_get st (sc_season_end s) (date_year d) = Inr ed"
  then show "season_yield st d s =
        Inr (if spec_season_keep (sd_date sd) (sd_date ed) (date_isoformat d) then [s] else [])"
    by (auto simp: season_yield_def spec_season_keep_def wrap_branch_def range_branch_def Let_def)
next
  show "season_yield season_store (ymd2ord 2024 1 15) winter_schedule = Inr [winter_schedule]"
    by code_simp
next
  show "season_yield season_store (ymd2ord 2024 4 1) winter_schedule = Inr []"
    by code_simp
next
  assume "\<forall>x \<in> set xs. sc_has_season x \<longrightarrow>
          (\<exists>sd ed. SeasonDefinition_get st (sc_season_start x) (date_year d) = Inr sd
                 \<and> SeasonDefinition_get st (sc_season_end x) (date_year d) = Inr ed)"
  then show "filter_season st d xs = Inr (filter (spec_season_selects st d) xs)"
    by (rule filter_season_total)
next
  assume "\<exists>x \<in> set xs. sc_has_season x
          \<and> \<not> (\<exists>sd ed. SeasonDefinition_get st (sc_season_start x) (date_year d) = Inr sd
                     \<and> SeasonDefinition_get st (sc_season_end x) (date_year d) = Inr ed)"
  then show "\<exists>e. filter_season st d xs = Inl e"
    by (rule filter_season_raises)
qed

text \<open>
  On April 1 the filter drops the winter schedule and keeps the schedule without a
  season that stands after it; on December 24 it keeps both.
\<close>

theorem season_filter_keeps_in_season_witness:
  "(sc_has_season winter_schedule
     \<and> SeasonDefinition_get season_store (sc_season_start winter_schedule)
          (date_year (ymd2ord 2024 4 1))
        = Inr \<lparr>sd_season = ''First day of December'', sd_year = 2024, sd_date = ''2024-12-01''\<rparr>
     \<and> SeasonDefinition_get season_store (sc_season_end winter_schedule)
          (date_year (ymd2ord 2024 4 1))
        = Inr \<lparr>sd_season = ''Last day of February'', sd_year = 2024, sd_date = ''2024-02-28''\<rparr>)
   \<and> \<not> sc_has_season (make_schedule ''Regular'' ''Other'' ''All year'' ''Mon-Fri''
          ''08:00:00'' ''09:00:00'' 0 3600)
   \<and> filter_season season_store (ymd2ord 2024 4 1)
       [winter_schedule, make_schedule ''Regular'' ''Other'' ''All year'' ''Mon-Fri''
          ''08:00:00'' ''09:00:00'' 0 3600]
     = Inr [make_schedule ''Regular'' ''Other'' ''All year'' ''Mon-Fri''
          ''08:00:00'' ''09:00:00'' 0 3600]
   \<and> filter_season season_store (ymd2ord 2024 12 24)
       [winter_schedule, make_schedule ''Regular'' ''Other'' ''All year'' ''Mon-Fri''
          ''08:00:00'' ''09:00:00'' 0 3600]
     = Inr [winter_schedule, make_schedule ''Regular'' ''Other'' ''All year'' ''Mon-Fri''
          ''08:00:00'' ''09:00:00'' 0 3600]"
proof -
  let ?a = "make_schedule ''Regular'' ''Other'' ''All year'' ''Mon-Fri''
          ''08:00:00'' ''09:00:00'' 0 3600"
  let ?dec = "\<lparr>sd_season = ''First day of December'', sd_year = 2024, sd_date = ''2024-12-01''\<rparr>"
  let ?feb = "\<lparr>sd_season = ''Last day of February'', sd_year = 2024, sd_date = ''2024-02-28''\<rparr>"
  have hw: "sc_has_season winter_schedule" by code_simp
  have ha: "\<not> sc_has_season ?a" by code_simp
  have s1: "SeasonDefinition_get season_store (sc_season_start winter_schedule)
          (date_year (ymd2ord 2024 4 1)) = Inr ?dec" by code_simp
  have e1: "SeasonDefinition_get season_store (sc_season_end winter_schedule)
          (date_year (ymd2ord 2024 4 1)) = Inr ?feb" by code_simp
  have s2: "SeasonDefinition_get season_store (sc_season_start winter_schedule)
          (date_year (ymd2ord 2024 12 24)) = Inr ?dec" by code_simp
  have e2: "SeasonDefinition_get season_store (sc_season_end winter_schedule)
          (date_year (ymd2ord 2024 12 24)) = Inr ?feb" by code_simp
  have f1: "filter (spec_season_selects season_store (ymd2ord 2024 4 1)) [winter_schedule, ?a]
      = [?a]" by code_simp
  have f2: "filter (spec_season_selects season_store (ymd2ord 2024 12 24)) [winter_schedule, ?a]
      = [winter_schedule, ?a]" by code_simp
  have p1: "\<forall>x \<in> set [winter_schedule, ?a]. sc_has_season x \<longrightarrow>
          (\<exists>sd ed. SeasonDefinition_get season_store (sc_season_start x)
                      (date_year (ymd2ord 2024 4 1)) = Inr sd
                 \<and> SeasonDefinition_get season_store (sc_season_end x)
                      (date_year (ymd2ord 2024 4 1)) = Inr ed)"
    using s1 e1 ha by auto
  have p2: "\<forall>x \<in> set [winter_schedule, ?a]. sc_has_season x \<longrightarrow>
          (\<exists>sd ed. SeasonDefinition_get season_store (sc_season_start x)
                      (date_year (ymd2ord 2024 12 24)) = Inr sd
                 \<and> SeasonDefinition_get season_store (sc_season_end x)
                      (date_year (ymd2ord 2024 12 24)) = Inr ed)"
    using s2 e2 ha by auto
  have t1: "filter_season season_store (ymd2ord 2024 4 1) [winter_schedule, ?a] = Inr [?a]"
    using season_filter_keeps_in_season[where st = season_store and d = "ymd2ord 2024 4 1"
        and xs = "[winter_schedule, ?a]"] p1 f1
    by (metis (no_types, lifting))
  have t2: "filter_season season_store (ymd2ord 2024 12 24) [winter_schedule, ?a]
      = Inr [winter_schedule, ?a]"
    using season_filter_keeps_in_season[where st = season_store and d = "ymd2ord 2024 12 24"
        and xs = "[winter_schedule, ?a]"] p2 f2
    by (metis (no_types, lifting))
  from hw s1 e1 ha t1 t2 show ?thesis by blast
qed

section \<open>Market lookup: redirection and dispatch\<close>

lemma get_by_finid_unfold:
  "validate_finid_arg env ''finid'' finid = Inr fid \<Longrightarrow>
   get_by_finid env st finid follow =
     (case query_market st fid of
        Inl e \<Rightarrow> Inl e
      | Inr None \<Rightarrow> Inr None
      | Inr (Some found) \<Rightarrow>
          (case mk_replaced_by found of
             None \<Rightarrow> Inr (Some found)
           | Some rb \<Rightarrow> if rb \<noteq> [] \<and> follow then query_market st rb else Inr (Some found)))"
  by (simp add: get_by_finid_def)

text \<open>
  Claim C6. \<open>get_by_finid\<close> performs at most one redirection hop. With \<open>follow\<close> set
  and a located market whose \<open>replaced_by\<close> is not empty, the result is the outcome of
  the one query for the market whose \<open>fin_id\<close> is that \<open>replaced_by\<close>, whatever the
  \<open>replaced_by\<close> of that market; a market that names itself is returned as it is;
  without \<open>follow\<close> the result is the outcome of the first query; and when no row
  matches the result is \<open>None\<close>, not an error. The identifier is the one the validator
  returns.
\<close>

theorem get_by_finid_one_hop:
  assumes "validate_finid_arg env ''finid'' finid = Inr fid"
  shows "(query_market st fid = Inr None \<longrightarrow> get_by_finid env st finid follow = Inr None)
    \<and> (\<not> follow \<longrightarrow> get_by_finid env st finid follow = query_market st fid)
    \<and> (\<forall>found rb. follow \<and> query_market st fid = Inr (Some found)
          \<and> mk_replaced_by found = Some rb \<and> rb \<noteq> [] \<longrightarrow>
        get_by_finid env st finid follow = query_market st rb)
    \<and> (\<forall>found. query_market st fid = Inr (Some found)
          \<and> (mk_replaced_by found = None \<or> mk_replaced_by found = Some []) \<longrightarrow>
        get_by_finid env st finid follow = Inr (Some found))
    \<and> (\<forall>found. query_market st fid = Inr (Some found) \<and> mk_replaced_by found = Some fid \<longrightarrow>
        get_by_finid env st finid follow = Inr (Some found))"
proof -
  note u = get_by_finid_unfold[OF assms]
  have 1: "query_market st fid = Inr None \<longrightarrow> get_by_finid env st finid follow = Inr None"
    by (simp add: u)
  have 2: "\<not> follow \<longrightarrow> get_by_finid env st finid follow = query_market st fid"
    by (auto simp: u split: sum.splits option.splits)
  have 3: "\<forall>found rb. follow \<and> query_market st fid = Inr (Some found)
          \<and> mk_replaced_by found = Some rb \<and> rb \<noteq> [] \<longrightarrow>
        get_by_finid env st finid follow = query_market st rb"
    by (simp add: u)
  have 4: "\<forall>found. query_market st fid = Inr (Some found)
          \<and> (mk_replaced_by found = None \<or> mk_replaced_by found = Some []) \<longrightarrow>
        get_by_finid env st finid follow = Inr (Some found)"
    by (auto simp: u)
  have 5: "\<forall>found. query_market st fid = Inr (Some found) \<and> mk_replaced_by found = Some fid \<longrightarrow>
        get_by_finid env st finid follow = Inr (Some found)"
    by (auto simp: u)
  from 1 2 3 4 5 show ?thesis by blast
qed

theorem get_by_finid_one_hop_witness:
  "validate_finid_arg example_env ''finid'' ''ZA.JSE.SAFEX'' = Inr ''ZA.JSE.SAFEX''
   \<and> query_market lookup_store ''ZA.JSE.SAFEX''
       = Inr (Some (make_market ''ZA.JSE.SAFEX'' ''XSFA'' (Some ''ZA.JSE.EQUITIES.DRV'')))
   \<and> get_by_finid example_env lookup_store ''ZA.JSE.SAFEX'' True
       = Inr (Some (make_market ''ZA.JSE.EQUITIES.DRV'' ''XJSE'' (Some ''ZA.JSE.NEXT'')))
   \<and> get_by_finid example_env lookup_store ''ZA.JSE.SAFEX'' False
       = Inr (Some (make_market ''ZA.JSE.SAFEX'' ''XSFA'' (Some ''ZA.JSE.EQUITIES.DRV'')))
   \<and> query_market lookup_store ''XX.NONE'' = Inr None
   \<and> get_by_finid example_env lookup_store ''XX.NONE'' True = Inr None
   \<and> get_by_finid example_env lookup_store ''XX.SELF'' True
       = Inr (Some (make_market ''XX.SELF'' [] (Some ''XX.SELF'')))"
proof -
  have v: "validate_finid_arg example_env ''finid'' x = Inr x" for x
    by (simp add: example_env_def)
  have q1: "query_market lookup_store ''ZA.JSE.SAFEX''
       = Inr (Some (make_market ''ZA.JSE.SAFEX'' ''XSFA'' (Some ''ZA.JSE.EQUITIES.DRV'')))"
    by code_simp
  have q2: "query_market lookup_store ''ZA.JSE.EQUITIES.DRV''
       = Inr (Some (make_market ''ZA.JSE.EQUITIES.DRV'' ''XJSE'' (Some ''ZA.JSE.NEXT'')))"
    by code_simp
  have q3: "query_market lookup_store ''XX.NONE'' = Inr None"
    by code_simp
  have q4: "query_market lookup_store ''XX.SELF''
       = Inr (Some (make_market ''XX.SELF'' [] (Some ''XX.SELF'')))"
    by code_simp
  have r: "mk_replaced_by (make_market a b c) = c" for a b c
    by (simp add: make_market_def)
  note t1 = get_by_finid_one_hop[OF v, of lookup_store "''ZA.JSE.SAFEX''" True]
  note t2 = get_by_finid_one_hop[OF v, of lookup_store "''ZA.JSE.SAFEX''" False]
  note t3 = get_by_finid_one_hop[OF v, of lookup_store "''XX.NONE''" True]
  note t4 = get_by_finid_one_hop[OF v, of lookup_store "''XX.SELF''" True]
  have a: "get_by_finid example_env lookup_store ''ZA.JSE.SAFEX'' True
       = Inr (Some (make_market ''ZA.JSE.EQUITIES.DRV'' ''XJSE'' (Some ''ZA.JSE.NEXT'')))"
    using t1 q1 q2 r by simp
  have b: "get_by_finid example_env lookup_store ''ZA.JSE.SAFEX'' False
       = Inr (Some (make_market ''ZA.JSE.SAFEX'' ''XSFA'' (Some ''ZA.JSE.EQUITIES.DRV'')))"
    using t2 q1 by simp
  have c: "get_by_finid example_env lookup_store ''XX.NONE'' True = Inr None"
    using t3 q3 by simp
  have d: "get_by_finid example_env lookup_store ''XX.SELF'' True
       = Inr (Some (make_market ''XX.SELF'' [] (Some ''XX.SELF'')))"
    using t4 q4 r by simp
  from v q1 a b q3 c d show ?thesis by simp
qed

text \<open>
  Claim C10. If \<open>follow\<close> is set and the market located for a FinID has a non-empty
  \<open>replaced_by\<close> that matches no market row, \<open>get_by_finid\<close> returns \<open>None\<close> and
  not the market it had found; without \<open>follow\<close> the same call returns that market.
\<close>

theorem get_by_finid_missing_target:
  assumes "validate_finid_arg env ''finid'' finid = Inr fid"
    and "query_market st fid = Inr (Some found)"
    and "mk_replaced_by found = Some rb"
    and "rb \<noteq> []"
    and "query_market st rb = Inr None"
  shows "get_by_finid env st finid True = Inr None
    \<and> get_by_finid env st finid False = Inr (Some found)"
  using assms by (simp add: get_by_finid_def)

theorem get_by_finid_missing_target_witness:
  "validate_finid_arg example_env ''finid'' ''XX.OLD'' = Inr ''XX.OLD''
   \<and> query_market lookup_store ''XX.OLD'' = Inr (Some (make_market ''XX.OLD'' [] (Some ''XX.GONE'')))
   \<and> query_market lookup_store ''XX.GONE'' = Inr None
   \<and> get_by_finid example_env lookup_store ''XX.OLD'' True = Inr None
   \<and> get_by_finid example_env lookup_store ''XX.OLD'' False
       = Inr (Some (make_market ''XX.OLD'' [] (Some ''XX.GONE'')))"
proof -
  have v: "validate_finid_arg example_env ''finid'' ''XX.OLD'' = Inr ''XX.OLD''"
    by (simp add: example_env_def)
  have q1: "query_market lookup_store ''XX.OLD''
       = Inr (Some (make_market ''XX.OLD'' [] (Some ''XX.GONE'')))"
    by code_simp
  have q2: "query_market lookup_store ''XX.GONE'' = Inr None"
    by code_simp
  have r: "mk_replaced_by (make_market ''XX.OLD'' [] (Some ''XX.GONE'')) = Some ''XX.GONE''"
    by (simp add: make_market_def)
  have n: "''XX.GONE'' \<noteq> []" by simp
  from get_by_finid_missing_target[OF v q1 r n q2] v q1 q2 show ?thesis by simp
qed





section \<open>The weekday fallback\<close>

lemma fallback_loop_chain:
  "backward_chain cw fw cs \<Longrightarrow>
   fallback_loop env before cw [] fw tr =
     Some (case dropWhile (\<lambda>w. filter_weekdays env w before = []) cs of
             [] \<Rightarrow> [] | w # _ \<Rightarrow> filter_weekdays env w before,
           tr @ takeWhile (\<lambda>w. filter_weekdays env w before = []) cs
              @ take 1 (dropWhile (\<lambda>w. filter_weekdays env w before = []) cs))"
proof (induction cs arbitrary: fw tr)
  case Nil
  then show ?case by (simp add: fallback_loop.simps)
next
  case (Cons c cs)
  from Cons.prems have fw: "fw = c" and ne: "c \<noteq> cw"
    and ch: "backward_chain cw (if c = 0 then 6 else c - 1) cs"
    by simp_all
  have step: "fallback_loop env before cw [] c tr =
      fallback_loop env before cw (filter_weekdays env c before)
        (if c = 0 then 6 else c - 1) (tr @ [c])"
    using ne by (subst fallback_loop.simps) (simp add: filter_weekdays_def)
  show ?case
  proof (cases "filter_weekdays env c before = []")
    case True
    with step Cons.IH[OF ch, of "tr @ [c]"] fw show ?thesis by simp
  next
    case False
    then have "fallback_loop env before cw (filter_weekdays env c before)
        (if c = 0 then 6 else c - 1) (tr @ [c]) = Some (filter_weekdays env c before, tr @ [c])"
      by (subst fallback_loop.simps) simp
    with step False fw show ?thesis by simp
  qed
qed

lemma earlier_weekdays_chain:
  assumes "0 \<le> today" "today \<le> 6"
  shows "backward_chain today (if today = 0 then 6 else today - 1) (earlier_weekdays today)"
proof -
  from assms have "today = 0 \<or> today = 1 \<or> today = 2 \<or> today = 3 \<or> today = 4
      \<or> today = 5 \<or> today = 6" by arith
  then show ?thesis
    by (elim disjE) (simp_all add: earlier_weekdays_def)
qed

lemma today_not_earlier:
  assumes "0 \<le> today" "today \<le> 6"
  shows "today \<notin> set (earlier_weekdays today)"
proof -
  from assms have "today = 0 \<or> today = 1 \<or> today = 2 \<or> today = 3 \<or> today = 4
      \<or> today = 5 \<or> today = 6" by arith
  then show ?thesis
    by (elim disjE) (simp_all add: earlier_weekdays_def)
qed

lemma date_weekday_range: "0 \<le> date_weekday d \<and> date_weekday d \<le> 6"
  by (simp add: date_weekday_def)

lemma take_one_prefix: "xs @ take 1 ys = take (length (xs @ take 1 ys)) (xs @ ys)"
  by (cases ys) simp_all

lemma butlast_take_one: "set (butlast (xs @ take 1 ys)) \<subseteq> set xs"
  by (cases ys) (auto simp: butlast_append dest: in_set_butlastD)

lemma fallback_search_characterised:
  assumes "0 \<le> today" "today \<le> 6"
  shows "\<exists>tested. fallback_search env before today = Some (spec_fallback env before today, tested)
      \<and> length tested \<le> 6
      \<and> today \<notin> set tested
      \<and> tested = take (length tested) (earlier_weekdays today)
      \<and> (\<forall>w \<in> set (butlast tested). filter_weekdays env w before = [])
      \<and> (spec_fallback env before today \<noteq> [] \<longrightarrow>
           spec_fallback env before today = filter_weekdays env (last tested) before)"
proof -
  define E where "E = (\<lambda>w. filter_weekdays env w before = [])"
  define cs where "cs = earlier_weekdays today"
  define tested where "tested = takeWhile E cs @ take 1 (dropWhile E cs)"
  have len: "length cs = 6" by (simp add: cs_def earlier_weekdays_def)
  have run: "fallback_search env before today =
      Some (case dropWhile E cs of [] \<Rightarrow> [] | w # _ \<Rightarrow> filter_weekdays env w before, tested)"
    unfolding fallback_search_def E_def cs_def tested_def
    using fallback_loop_chain[OF earlier_weekdays_chain[OF assms], of env before "[]"] by simp
  have spec: "spec_fallback env before today =
      (case dropWhile E cs of [] \<Rightarrow> [] | w # _ \<Rightarrow> filter_weekdays env w before)"
  proof -
    have h: "(Not \<circ> (\<lambda>w. filter_weekdays env w before \<noteq> [])) = E"
      by (auto simp: E_def)
    have c: "(case (case xs of [] \<Rightarrow> None | x # _ \<Rightarrow> Some x) of None \<Rightarrow> a | Some w \<Rightarrow> f w)
        = (case xs of [] \<Rightarrow> a | w # _ \<Rightarrow> f w)" for xs :: "int list" and a :: "schedule list" and f
      by (cases xs) simp_all
    show ?thesis
      unfolding spec_fallback_def find_dropWhile h cs_def by (rule c)
  qed
  have pre: "tested = take (length tested) cs"
    unfolding tested_def using take_one_prefix[of "takeWhile E cs" "dropWhile E cs"]
    by (simp only: takeWhile_dropWhile_id)
  have sub: "set tested \<subseteq> set cs"
    by (metis pre set_take_subset)
  have l6: "length tested \<le> 6"
    using arg_cong[OF pre, of length] by (simp add: len)
  have notin: "today \<notin> set tested"
    using sub today_not_earlier[OF assms] by (auto simp: cs_def)
  have bl: "\<forall>w \<in> set (butlast tested). E w"
    using butlast_take_one[of "takeWhile E cs" "dropWhile E cs"]
    by (auto simp: tested_def dest: set_takeWhileD)
  have lastt: "spec_fallback env before today \<noteq> [] \<longrightarrow>
           spec_fallback env before today = filter_weekdays env (last tested) before"
  proof (cases "dropWhile E cs")
    case Nil
    show ?thesis by (simp add: spec Nil del: dropWhile_eq_Nil_conv)
  next
    case (Cons w ws)
    show ?thesis by (simp add: spec tested_def Cons)
  qed
  from run spec pre l6 notin bl lastt show ?thesis
    by (auto simp: cs_def E_def)
qed

lemma found_schedules_spec:
  assumes "0 \<le> today" "today \<le> 6"
  shows "found_schedules env fallback today before =
           Some (if filter_weekdays env today before = [] \<and> fallback
                 then spec_fallback env before today
                 else filter_weekdays env today before)"
proof -
  from fallback_search_characterised[OF assms, of env before]
  obtain tested where "fallback_search env before today
      = Some (spec_fallback env before today, tested)" by blast
  then show ?thesis by (simp add: found_schedules_def Let_def)
qed

lemma spec_fallback_none:
  "\<forall>w \<in> set (earlier_weekdays today). filter_weekdays env w before = [] \<Longrightarrow>
   spec_fallback env before today = []"
proof -
  assume a: "\<forall>w \<in> set (earlier_weekdays today). filter_weekdays env w before = []"
  have "find (\<lambda>w. filter_weekdays env w before \<noteq> []) (earlier_weekdays today) = None"
    using a by (simp add: find_None_iff)
  then show ?thesis by (simp add: spec_fallback_def)
qed

text \<open>
  Claim C1. On a date whose weekday filter yields nothing while fallback is allowed,
  \<open>generate_phases\<close> searches the earlier weekdays, starting at \<open>(today - 1) mod 7\<close> and
  walking backward modulo 7 over the set that survived the season filter, and adopts the
  first weekday whose filtered set is not empty (\<open>spec_fallback\<close>). The search returns
  after at most six iterations, within the seven of the claim; the weekdays it tests are
  an initial segment of \<open>earlier_weekdays\<close>, today's weekday is never among them, all but
  the last tested gave nothing, and if every other weekday gives nothing the result is
  empty. The schedules of the date are then the phases of that result.
\<close>

theorem fallback_walks_earlier_weekdays:
  assumes "today = date_weekday d"
  shows "(\<exists>tested. fallback_search env before today
              = Some (spec_fallback env before today, tested)
            \<and> length tested \<le> 6
            \<and> today \<notin> set tested
            \<and> tested = take (length tested) (earlier_weekdays today)
            \<and> (\<forall>w \<in> set (butlast tested). filter_weekdays env w before = [])
            \<and> (spec_fallback env before today \<noteq> [] \<longrightarrow>
                 spec_fallback env before today = filter_weekdays env (last tested) before))
    \<and> hd (earlier_weekdays today) = (today - 1) mod 7
    \<and> ((\<forall>w \<in> set (earlier_weekdays today). filter_weekdays env w before = []) \<longrightarrow>
         spec_fallback env before today = [])
    \<and> found_schedules env fallback today before =
         Some (if filter_weekdays env today before = [] \<and> fallback
               then spec_fallback env before today
               else filter_weekdays env today before)
    \<and> (\<forall>grp all_schedules holidays phase_types_dict start.
          pick_schedule_group env d holidays = (grp, True)
          \<and> filter_season st d
               (filter_inforce (date_isoformat d) (filter_schedule_group grp all_schedules))
              = Inr before
          \<and> filter_weekdays env today before = [] \<longrightarrow>
          phases_on_date env st phase_types_dict all_schedules holidays start d =
            phases_of_schedules env phase_types_dict start d
              (sort_key (\<lambda>s. (sc_start s, sc_duration s)) (spec_fallback env before today)))"
proof -
  have r: "0 \<le> today" "today \<le> 6"
    using assms date_weekday_range[of d] by simp_all
  note f = found_schedules_spec[OF r]
  have 1: "\<exists>tested. fallback_search env before today
              = Some (spec_fallback env before today, tested)
            \<and> length tested \<le> 6
            \<and> today \<notin> set tested
            \<and> tested = take (length tested) (earlier_weekdays today)
            \<and> (\<forall>w \<in> set (butlast tested). filter_weekdays env w before = [])
            \<and> (spec_fallback env before today \<noteq> [] \<longrightarrow>
                 spec_fallback env before today = filter_weekdays env (last tested) before)"
    by (rule fallback_search_characterised[OF r])
  have 2: "hd (earlier_weekdays today) = (today - 1) mod 7"
    by (simp add: earlier_weekdays_def)
  have 3: "(\<forall>w \<in> set (earlier_weekdays today). filter_weekdays env w before = []) \<longrightarrow>
         spec_fallback env before today = []"
    using spec_fallback_none by blast
  have 4: "found_schedules env fallback today before =
         Some (if filter_weekdays env today before = [] \<and> fallback
               then spec_fallback env before today
               else filter_weekdays env today before)"
    by (rule f)
  have 5: "\<forall>grp all_schedules holidays phase_types_dict start.
          pick_schedule_group env d holidays = (grp, True)
          \<and> filter_season st d
               (filter_inforce (date_isoformat d) (filter_schedule_group grp all_schedules))
              = Inr before
          \<and> filter_weekdays env today before = [] \<longrightarrow>
          phases_on_date env st phase_types_dict all_schedules holidays start d =
            phases_of_schedules env phase_types_dict start d
              (sort_key (\<lambda>s. (sc_start s, sc_duration s)) (spec_fallback env before today))"
    using f[of env True before] assms by (simp add: phases_on_date_def Let_def)
  from 1 2 3 4 5 show ?thesis by blast
qed

theorem fallback_walks_earlier_weekdays_witness:
  "date_weekday (ymd2ord 2024 11 29) = 4
   \<and> filter_weekdays example_env 4
        [make_schedule ''Early Close'' ''Primary Trading Session'' ''Core Trading Session''
           ''Wed'' ''09:30:00'' ''13:00:00'' 0 12600] = []
   \<and> fallback_search example_env
        [make_schedule ''Early Close'' ''Primary Trading Session'' ''Core Trading Session''
           ''Wed'' ''09:30:00'' ''13:00:00'' 0 12600] 4
      = Some ([make_schedule ''Early Close'' ''Primary Trading Session'' ''Core Trading Session''
           ''Wed'' ''09:30:00'' ''13:00:00'' 0 12600], [3, 2])
   \<and> found_schedules example_env True 4
        [make_schedule ''Early Close'' ''Primary Trading Session'' ''Core Trading Session''
           ''Wed'' ''09:30:00'' ''13:00:00'' 0 12600]
      = Some [make_schedule ''Early Close'' ''Primary Trading Session'' ''Core Trading Session''
           ''Wed'' ''09:30:00'' ''13:00:00'' 0 12600]"
proof -
  let ?s = "make_schedule ''Early Close'' ''Primary Trading Session'' ''Core Trading Session''
           ''Wed'' ''09:30:00'' ''13:00:00'' 0 12600"
  have w: "(4::int) = date_weekday (ymd2ord 2024 11 29)" by code_simp
  have e: "filter_weekdays example_env 4 [?s] = []" by code_simp
  have sp: "spec_fallback example_env [?s] 4 = [?s]" by code_simp
  have fs: "fallback_search example_env [?s] 4 = Some ([?s], [3, 2])" by code_simp
  from fallback_walks_earlier_weekdays[OF w, of example_env "[?s]" True]
  have "found_schedules example_env True 4 [?s] =
         Some (if filter_weekdays example_env 4 [?s] = [] \<and> True
               then spec_fallback example_env [?s] 4
               else filter_weekdays example_env 4 [?s])" by blast
  then have "found_schedules example_env True 4 [?s] = Some [?s]"
    by (simp only: e sp simp_thms if_True)
  with w e fs show ?thesis by simp
qed

section \<open>What the generator emits\<close>

text \<open>
  Every emission of a run comes from one iteration of the loop over the dates, for a date
  of the scan, and is the phase that the loop body builds for its schedule there.
\<close>

lemma date_add_Inr: "date_add d n = Inr e \<Longrightarrow> e = d + n"
  by (auto simp: date_add_def Let_def split: if_splits)

lemma phase_of_schedule_Some:
  assumes "phase_of_schedule env ptd start d s = Inr (Some p)"
  shows "\<exists>ts te z pt.
      date_add d (sc_offset_days s) = Inr (d + sc_offset_days s)
    \<and> start \<le> d + sc_offset_days s
    \<and> time_fromisoformat env (sc_start s) = Some ts
    \<and> time_fromisoformat env (sc_end s) = Some te
    \<and> zoneinfo env (sc_timezone s) = Some z
    \<and> ptd (sc_phase_type s) = Some pt
    \<and> p = \<lparr>ph_phase_type = sc_phase_type s, ph_phase_name = sc_phase_name s,
           ph_phase_memo = sc_phase_memo s, ph_status = pt_status pt,
           ph_settlement = pt_settlement pt,
           ph_start = \<lparr>z_date = d, z_time = ts, z_utcoffset = z d ts\<rparr>,
           ph_end = \<lparr>z_date = d + sc_offset_days s, z_time = te,
                     z_utcoffset = z (d + sc_offset_days s) te\<rparr>\<rparr>"
  using assms
  by (auto simp: phase_of_schedule_def date_add_def Let_def
      split: if_splits option.splits sum.splits)

lemma phases_of_schedules_mem:
  "(d', s, p) \<in> set (fst (phases_of_schedules env ptd start d xs)) \<Longrightarrow>
   d' = d \<and> s \<in> set xs \<and> phase_of_schedule env ptd start d s = Inr (Some p)"
  by (induction xs) (auto split: sum.splits option.splits prod.splits)

lemma phases_on_date_mem:
  "(d', s, p) \<in> set (fst (phases_on_date env st ptd all hol start d)) \<Longrightarrow>
   d' = d \<and> phase_of_schedule env ptd start d s = Inr (Some p)"
  by (auto simp: phases_on_date_def Let_def split: prod.splits sum.splits option.splits
      dest: phases_of_schedules_mem)

lemma generate_loop_mem:
  "(d, s, p) \<in> set (fst (generate_loop env st ptd all hol start end' cur)) \<Longrightarrow>
   cur \<le> d \<and> d \<le> end' \<and> phase_of_schedule env ptd start d s = Inr (Some p)"
proof (induction env st ptd all hol start end' cur rule: generate_loop.induct)
  case (1 env st ptd all hol start end' cur)
  show ?case
  proof (cases "cur \<le> end'")
    case False
    with "1.prems" show ?thesis by (subst (asm) generate_loop.simps) simp
  next
    case True
    obtain es r where pd: "phases_on_date env st ptd all hol start cur = (es, r)"
      by (cases "phases_on_date env st ptd all hol start cur")
    have here: "(d, s, p) \<in> set es \<Longrightarrow> ?thesis"
      using phases_on_date_mem[of d s p env st ptd all hol start cur] pd True by simp
    show ?thesis
    proof (cases "r = Finished \<and> (\<exists>n. date_add cur 1 = Inr n)")
      case False
      then have "fst (generate_loop env st ptd all hol start end' cur) = es"
        using True pd by (subst generate_loop.simps) (auto split: outcome.splits sum.splits)
      with "1.prems" here show ?thesis by simp
    next
      case yes: True
      then obtain n where r: "r = Finished" and n: "date_add cur 1 = Inr n" by blast
      have nn: "n = cur + 1" using date_add_Inr[OF n] .
      obtain es' r' where rest: "generate_loop env st ptd all hol start end' n = (es', r')"
        by (cases "generate_loop env st ptd all hol start end' n")
      have "fst (generate_loop env st ptd all hol start end' cur) = es @ es'"
        using True pd r n rest by (subst generate_loop.simps) simp
      with "1.prems" have "(d, s, p) \<in> set es \<or> (d, s, p) \<in> set es'" by simp
      then show ?thesis
      proof
        assume "(d, s, p) \<in> set es"
        then show ?thesis by (rule here)
      next
        assume "(d, s, p) \<in> set es'"
        then have "(d, s, p) \<in> set (fst (generate_loop env st ptd all hol start end' n))"
          by (simp add: rest)
        from "1.IH"[OF True pd[symmetric] r n this] nn show ?thesis by simp
      qed
    qed
  qed
qed

lemma generate_body_mem:
  assumes "(d, s, p) \<in> set (fst (generate_body env st self start end'))"
  shows "start - MAX_OFFSET_DAYS \<le> d \<and> d \<le> end'
    \<and> phase_of_schedule env (PhaseType_as_dict st) start d s = Inr (Some p)"
proof -
  from assms obtain os hol where os: "date_add start (- MAX_OFFSET_DAYS) = Inr os"
    and m: "(d, s, p) \<in> set (fst (generate_loop env st (PhaseType_as_dict st)
              (list_schedules st self) hol start end' os))"
    by (auto simp: generate_body_def Let_def split: sum.splits holidays_result.splits)
  from date_add_Inr[OF os] generate_loop_mem[OF m] show ?thesis by simp
qed

lemma generate_emissions_mem:
  assumes "validate_range env a b = Inr (start, end')"
    and "(d, s, p) \<in> set (fst (generate_emissions env st self a b))"
  shows "start - MAX_OFFSET_DAYS \<le> d \<and> d \<le> end'
    \<and> phase_of_schedule env (PhaseType_as_dict st) start d s = Inr (Some p)"
  using assms generate_body_mem[of d s p env st self start end']
  by (simp add: generate_emissions_def)

lemma generate_phases_emissions:
  "fst (generate_phases env st self a b)
     = map (\<lambda>(d, s, p). p) (fst (generate_emissions env st self a b))"
  by (simp add: generate_phases_def split: prod.splits)

text \<open>
  The emissions of one date are in the order of the sorted schedules, and every later
  date's emissions come after them.
\<close>

lemma phases_of_schedules_sorted:
  "sorted (map (\<lambda>s. (sc_start s, sc_duration s)) xs) \<Longrightarrow>
   sorted (map emission_key (fst (phases_of_schedules env ptd start d xs)))"
proof (induction xs)
  case Nil
  then show ?case by simp
next
  case (Cons x xs)
  from Cons.prems have tl: "sorted (map (\<lambda>s. (sc_start s, sc_duration s)) xs)"
    and hd: "\<forall>s \<in> set xs. (sc_start x, sc_duration x) \<le> (sc_start s, sc_duration s)"
    by simp_all
  note ih = Cons.IH[OF tl]
  show ?case
  proof (cases "phase_of_schedule env ptd start d x")
    case (Inl e)
    then show ?thesis by simp
  next
    case (Inr po)
    show ?thesis
    proof (cases po)
      case None
      with Inr ih show ?thesis by simp
    next
      case (Some p)
      obtain es r where rest: "phases_of_schedules env ptd start d xs = (es, r)"
        by (cases "phases_of_schedules env ptd start d xs")
      have "\<forall>e \<in> set es. emission_key (d, x, p) \<le> emission_key e"
      proof
        fix e assume e: "e \<in> set es"
        obtain d' s' p' where t: "e = (d', s', p')" by (cases e)
        from e t rest phases_of_schedules_mem[of d' s' p' env ptd start d xs]
        have "d' = d" "s' \<in> set xs" by simp_all
        with hd t show "emission_key (d, x, p) \<le> emission_key e"
          by (simp add: emission_key_def less_eq_prod_def)
      qed
      with Inr Some rest ih show ?thesis by simp
    qed
  qed
qed

lemma phases_on_date_sorted:
  "sorted (map emission_key (fst (phases_on_date env st ptd all hol start d)))"
  by (auto simp: phases_on_date_def Let_def intro!: phases_of_schedules_sorted
      split: prod.splits sum.splits option.splits)

lemma generate_loop_sorted:
  "sorted (map emission_key (fst (generate_loop env st ptd all hol start end' cur)))"
proof (induction env st ptd all hol start end' cur rule: generate_loop.induct)
  case (1 env st ptd all hol start end' cur)
  show ?case
  proof (cases "cur \<le> end'")
    case False
    then show ?thesis by (subst generate_loop.simps) simp
  next
    case True
    obtain es r where pd: "phases_on_date env st ptd all hol start cur = (es, r)"
      by (cases "phases_on_date env st ptd all hol start cur")
    have ses: "sorted (map emission_key es)"
      using phases_on_date_sorted[of env st ptd all hol start cur] pd by simp
    show ?thesis
    proof (cases "r = Finished \<and> (\<exists>n. date_add cur 1 = Inr n)")
      case False
      then have "fst (generate_loop env st ptd all hol start end' cur) = es"
        using True pd by (subst generate_loop.simps) (auto split: outcome.splits sum.splits)
      with ses show ?thesis by simp
    next
      case yes: True
      then obtain n where r: "r = Finished" and n: "date_add cur 1 = Inr n" by blast
      have nn: "n = cur + 1" using date_add_Inr[OF n] .
      obtain es' r' where rest: "generate_loop env st ptd all hol start end' n = (es', r')"
        by (cases "generate_loop env st ptd all hol start end' n")
      have eq: "fst (generate_loop env st ptd all hol start end' cur) = es @ es'"
        using True pd r n rest by (subst generate_loop.simps) simp
      have ses': "sorted (map emission_key es')"
        using "1.IH"[OF True pd[symmetric] r n] rest by simp
      have cross: "\<forall>x \<in> set es. \<forall>y \<in> set es'. emission_key x \<le> emission_key y"
      proof (intro ballI)
        fix x y assume x: "x \<in> set es" and y: "y \<in> set es'"
        obtain d1 s1 p1 where tx: "x = (d1, s1, p1)" by (cases x)
        obtain d2 s2 p2 where ty: "y = (d2, s2, p2)" by (cases y)
        from x tx pd phases_on_date_mem[of d1 s1 p1 env st ptd all hol start cur]
        have "d1 = cur" by simp
        moreover from y ty rest generate_loop_mem[of d2 s2 p2 env st ptd all hol start end' n]
        have "n \<le> d2" by simp
        ultimately show "emission_key x \<le> emission_key y"
          using nn tx ty by (simp add: emission_key_def less_eq_prod_def)
      qed
      from ses ses' cross show ?thesis
        by (simp add: eq sorted_append)
    qed
  qed
qed

lemma generate_emissions_sorted:
  "sorted (map emission_key (fst (generate_emissions env st self a b)))"
  by (auto simp: generate_emissions_def generate_body_def Let_def generate_loop_sorted
      split: sum.splits prod.splits holidays_result.splits)

lemma emission_start_date:
  "(d, s, p) \<in> set (fst (generate_emissions env st self a b)) \<Longrightarrow> z_date (ph_start p) = d"
proof -
  assume m: "(d, s, p) \<in> set (fst (generate_emissions env st self a b))"
  then obtain start end' where v: "validate_range env a b = Inr (start, end')"
    by (cases "validate_range env a b") (auto simp: generate_emissions_def)
  from generate_emissions_mem[OF v m]
  have "phase_of_schedule env (PhaseType_as_dict st) start d s = Inr (Some p)" by simp
  from phase_of_schedule_Some[OF this] show ?thesis by auto
qed



lemma phases_of_schedules_total:
  assumes "\<forall>s \<in> set xs. \<exists>r. phase_of_schedule env ptd start d s = Inr r"
  shows "phases_of_schedules env ptd start d xs =
     (concat (map (\<lambda>s. case phase_of_schedule env ptd start d s of
                           Inr (Some p) \<Rightarrow> [(d, s, p)] | _ \<Rightarrow> []) xs), Finished)"
  using assms
proof (induction xs)
  case Nil
  then show ?case by simp
next
  case (Cons x xs)
  from Cons.prems obtain r where r: "phase_of_schedule env ptd start d x = Inr r" by auto
  from Cons.IH Cons.prems have ih: "phases_of_schedules env ptd start d xs =
     (concat (map (\<lambda>s. case phase_of_schedule env ptd start d s of
                           Inr (Some p) \<Rightarrow> [(d, s, p)] | _ \<Rightarrow> []) xs), Finished)" by simp
  show ?case by (cases r) (simp_all add: r ih)
qed


lemma validate_range_dates:
  "validate_range env (Date s) (Date e) = (if s > e then Inl InvalidArgument else Inr (s, e))"
  by (simp add: validate_range_def validate_date_arg_def validate_range_args_def)



section \<open>Lookback, order and validation of the generator\<close>



lemma sorted_map_fst_emission_key:
  "sorted (map emission_key es) \<Longrightarrow> sorted (map fst es)"
proof -
  assume "sorted (map emission_key es)"
  then have "sorted_wrt (\<lambda>x y. emission_key x \<le> emission_key y) es"
    by (simp add: sorted_map)
  then have "sorted_wrt (\<lambda>x y. fst x \<le> fst y) es"
    by (rule sorted_wrt_mono_rel[rotated])
       (auto simp: emission_key_def less_eq_prod_def split: prod.splits)
  then show ?thesis by (simp add: sorted_map)
qed

lemma same_date_key_order:
  assumes "sorted (map emission_key es)" and "i < j" and "j < length es"
    and "fst (es ! i) = fst (es ! j)"
  shows "(sc_start (fst (snd (es ! i))), sc_duration (fst (snd (es ! i))))
       \<le> (sc_start (fst (snd (es ! j))), sc_duration (fst (snd (es ! j))))"
proof -
  from assms(1-3) have "map emission_key es ! i \<le> map emission_key es ! j"
    by (intro sorted_nth_mono) simp_all
  with assms(2-4) show ?thesis
    by (cases "es ! i"; cases "es ! j") (auto simp: emission_key_def less_eq_prod_def)
qed

lemma phases_start_dates:
  "map (\<lambda>p. z_date (ph_start p)) (fst (generate_phases env st self a b))
     = map fst (fst (generate_emissions env st self a b))"
  using emission_start_date[of _ _ _ env st self a b]
  by (auto simp: generate_phases_emissions)

text \<open>
  Claim C4. Every sequence that \<open>generate_phases\<close> emits is ordered: the dates are in
  non-decreasing calendar order, and within a date the phases are in the order of the
  pair (schedule start time, schedule duration). The emissions, with the date and the
  schedule of each phase, are sorted by \<open>emission_key\<close>, lexicographically; this holds of
  every run, also of one that an exception ends. The schedules a date emits are, in
  order, the sorted schedules less those that are suppressed.
\<close>

theorem emissions_ordered_by_date_start_duration:
  "sorted (map emission_key (fst (generate_emissions env st self a b)))
   \<and> sorted (map (\<lambda>p. z_date (ph_start p)) (fst (generate_phases env st self a b)))
   \<and> map (\<lambda>p. z_date (ph_start p)) (fst (generate_phases env st self a b))
       = map fst (fst (generate_emissions env st self a b))
   \<and> fst (generate_phases env st self a b)
       = map (\<lambda>(d, s, p). p) (fst (generate_emissions env st self a b))
   \<and> (\<forall>i j. i < j \<and> j < length (fst (generate_emissions env st self a b))
          \<and> fst (fst (generate_emissions env st self a b) ! i)
              = fst (fst (generate_emissions env st self a b) ! j) \<longrightarrow>
        (sc_start (fst (snd (fst (generate_emissions env st self a b) ! i))),
         sc_duration (fst (snd (fst (generate_emissions env st self a b) ! i))))
        \<le> (sc_start (fst (snd (fst (generate_emissions env st self a b) ! j))),
            sc_duration (fst (snd (fst (generate_emissions env st self a b) ! j)))))
   \<and> (\<forall>d xs ptd start.
        (\<forall>s \<in> set xs. \<exists>r. phase_of_schedule env ptd start d s = Inr r) \<longrightarrow>
        map (\<lambda>(d, s, p). s)
          (fst (phases_of_schedules env ptd start d
                  (sort_key (\<lambda>s. (sc_start s, sc_duration s)) xs)))
        = filter (\<lambda>s. \<exists>p. phase_of_schedule env ptd start d s = Inr (Some p))
            (sort_key (\<lambda>s. (sc_start s, sc_duration s)) xs))"
proof -
  note s = generate_emissions_sorted[of env st self a b]
  have 2: "sorted (map (\<lambda>p. z_date (ph_start p)) (fst (generate_phases env st self a b)))"
    using sorted_map_fst_emission_key[OF s] by (simp add: phases_start_dates)
  have 5: "\<forall>i j. i < j \<and> j < length (fst (generate_emissions env st self a b))
          \<and> fst (fst (generate_emissions env st self a b) ! i)
              = fst (fst (generate_emissions env st self a b) ! j) \<longrightarrow>
        (sc_start (fst (snd (fst (generate_emissions env st self a b) ! i))),
         sc_duration (fst (snd (fst (generate_emissions env st self a b) ! i))))
        \<le> (sc_start (fst (snd (fst (generate_emissions env st self a b) ! j))),
            sc_duration (fst (snd (fst (generate_emissions env st self a b) ! j))))"
    using same_date_key_order[OF s] by blast
  have 6: "\<forall>d xs ptd start.
        (\<forall>s \<in> set xs. \<exists>r. phase_of_schedule env ptd start d s = Inr r) \<longrightarrow>
        map (\<lambda>(d, s, p). s)
          (fst (phases_of_schedules env ptd start d
                  (sort_key (\<lambda>s. (sc_start s, sc_duration s)) xs)))
        = filter (\<lambda>s. \<exists>p. phase_of_schedule env ptd start d s = Inr (Some p))
            (sort_key (\<lambda>s. (sc_start s, sc_duration s)) xs)"
  proof (intro allI impI)
    fix d xs ptd start
    assume a: "\<forall>s \<in> set xs. \<exists>r. phase_of_schedule env ptd start d s = Inr r"
    let ?ys = "sort_key (\<lambda>s. (sc_start s, sc_duration s)) xs"
    from a have "\<forall>s \<in> set ?ys. \<exists>r. phase_of_schedule env ptd start d s = Inr r" by simp
    from phases_of_schedules_total[OF this]
    have "fst (phases_of_schedules env ptd start d ?ys) =
        concat (map (\<lambda>s. case phase_of_schedule env ptd start d s of
                                  Inr (Some p) \<Rightarrow> [(d, s, p)] | _ \<Rightarrow> []) ?ys)" by simp
    moreover have "map (\<lambda>(d, s, p). s)
          (concat (map (\<lambda>s. case phase_of_schedule env ptd start d s of
                                  Inr (Some p) \<Rightarrow> [(d, s, p)] | _ \<Rightarrow> []) zs))
        = filter (\<lambda>s. \<exists>p. phase_of_schedule env ptd start d s = Inr (Some p)) zs" for zs
      by (induction zs) (auto split: sum.splits option.splits)
    ultimately show "map (\<lambda>(d, s, p). s) (fst (phases_of_schedules env ptd start d ?ys))
        = filter (\<lambda>s. \<exists>p. phase_of_schedule env ptd start d s = Inr (Some p)) ?ys"
      by simp
  qed
  from s 2 phases_start_dates[of env st self a b] generate_phases_emissions[of env st self a b]
    5 6 show ?thesis by blast
qed

text \<open>
  The store lists the pre-opening session after the core session; it is emitted before
  it.
\<close>

theorem emissions_ordered_by_date_start_duration_witness:
  "map sc_phase_name (list_schedules phase_store nyse)
     = [''Core Trading Session'', ''Core Trading Session'', ''Overnight Session'',
        ''Pre-Opening Session'']
   \<and> map (\<lambda>e. (date_isoformat (fst (emission_key e)), snd (emission_key e),
                sc_phase_name (fst (snd e))))
        (fst (generate_emissions example_env phase_store nyse
                (Str ''2024-02-06'') (Str ''2024-02-06'')))
      = [(''2024-02-05'', (''20:00:00'', 28800), ''Overnight Session''),
         (''2024-02-06'', (''04:00:00'', 19800), ''Pre-Opening Session''),
         (''2024-02-06'', (''09:30:00'', 23400), ''Core Trading Session''),
         (''2024-02-06'', (''20:00:00'', 28800), ''Overnight Session'')]
   \<and> sorted (map emission_key
        (fst (generate_emissions example_env phase_store nyse
                (Str ''2024-02-06'') (Str ''2024-02-06''))))"
proof -
  have l: "map sc_phase_name (list_schedules phase_store nyse)
     = [''Core Trading Session'', ''Core Trading Session'', ''Overnight Session'',
        ''Pre-Opening Session'']"
    by code_simp
  have e: "map (\<lambda>e. (date_isoformat (fst (emission_key e)), snd (emission_key e),
                sc_phase_name (fst (snd e))))
        (fst (generate_emissions example_env phase_store nyse
                (Str ''2024-02-06'') (Str ''2024-02-06'')))
      = [(''2024-02-05'', (''20:00:00'', 28800), ''Overnight Session''),
         (''2024-02-06'', (''04:00:00'', 19800), ''Pre-Opening Session''),
         (''2024-02-06'', (''09:30:00'', 23400), ''Core Trading Session''),
         (''2024-02-06'', (''20:00:00'', 28800), ''Overnight Session'')]"
    by code_simp
  from emissions_ordered_by_date_start_duration[of example_env phase_store nyse
      "Str ''2024-02-06''" "Str ''2024-02-06''"] l e
  show ?thesis by blast
qed

section \<open>Start and end instants of a phase\<close>

text \<open>
  Claim C5, as amended. \<open>generate_phases\<close> compares the end date of a phase with the start
  of the window and nothing else: it never compares the start of a phase with its end.
  Every emitted phase starts on its date at the schedule's start time and ends
  \<open>offset_days\<close> days later at the schedule's end time, each at the UTC offset that the
  schedule's zone has at that local time. So \<open>start < end\<close> as instants holds iff the
  local start less its offset is before the local end less its offset. With equal
  offsets it holds when \<open>offset_days = 0\<close> and the start time is before the end time, and
  when \<open>offset_days > 0\<close> (the phase straddles local midnight) with times of day; it fails
  when \<open>offset_days = 0\<close> and the end time is not after the start time.
\<close>

theorem phase_start_before_end_under_local_order:
  assumes "validate_range env a b = Inr (start, end')"
    and "(d, s, p) \<in> set (fst (generate_emissions env st self a b))"
  shows "\<exists>ts te z.
      time_fromisoformat env (sc_start s) = Some ts
    \<and> time_fromisoformat env (sc_end s) = Some te
    \<and> zoneinfo env (sc_timezone s) = Some z
    \<and> ph_start p = \<lparr>z_date = d, z_time = ts, z_utcoffset = z d ts\<rparr>
    \<and> ph_end p = \<lparr>z_date = d + sc_offset_days s, z_time = te,
                   z_utcoffset = z (d + sc_offset_days s) te\<rparr>
    \<and> (instant (ph_start p) < instant (ph_end p) \<longleftrightarrow>
         ts - z d ts < sc_offset_days s * 86400 + te - z (d + sc_offset_days s) te)
    \<and> (z d ts = z (d + sc_offset_days s) te \<and> sc_offset_days s = 0 \<and> ts < te \<longrightarrow>
         instant (ph_start p) < instant (ph_end p))
    \<and> (z d ts = z (d + sc_offset_days s) te \<and> 0 < sc_offset_days s
          \<and> ts < 86400 \<and> 0 \<le> te \<longrightarrow>
         instant (ph_start p) < instant (ph_end p))
    \<and> (z d ts = z (d + sc_offset_days s) te \<and> sc_offset_days s = 0 \<and> te \<le> ts \<longrightarrow>
         \<not> instant (ph_start p) < instant (ph_end p))"
proof -
  from generate_emissions_mem[OF assms]
  have ph: "phase_of_schedule env (PhaseType_as_dict st) start d s = Inr (Some p)" by simp
  from phase_of_schedule_Some[OF ph] obtain ts te z and pt :: phase_type where
    ts: "time_fromisoformat env (sc_start s) = Some ts"
    and te: "time_fromisoformat env (sc_end s) = Some te"
    and z: "zoneinfo env (sc_timezone s) = Some z"
    and p: "p = \<lparr>ph_phase_type = sc_phase_type s, ph_phase_name = sc_phase_name s,
           ph_phase_memo = sc_phase_memo s, ph_status = pt_status pt,
           ph_settlement = pt_settlement pt,
           ph_start = \<lparr>z_date = d, z_time = ts, z_utcoffset = z d ts\<rparr>,
           ph_end = \<lparr>z_date = d + sc_offset_days s, z_time = te,
                     z_utcoffset = z (d + sc_offset_days s) te\<rparr>\<rparr>"
    by metis
  have s1: "ph_start p = \<lparr>z_date = d, z_time = ts, z_utcoffset = z d ts\<rparr>"
    by (simp add: p)
  have e1: "ph_end p = \<lparr>z_date = d + sc_offset_days s, z_time = te,
                   z_utcoffset = z (d + sc_offset_days s) te\<rparr>"
    by (simp add: p)
  have i: "instant (ph_start p) < instant (ph_end p) \<longleftrightarrow>
         ts - z d ts < sc_offset_days s * 86400 + te - z (d + sc_offset_days s) te"
    by (simp add: s1 e1 instant_def algebra_simps)
  have o: "0 < sc_offset_days s \<Longrightarrow> 86400 \<le> sc_offset_days s * 86400"
    by simp
  have c1: "z d ts = z (d + sc_offset_days s) te \<and> sc_offset_days s = 0 \<and> ts < te \<longrightarrow>
         instant (ph_start p) < instant (ph_end p)"
    using i by auto
  have c2: "z d ts = z (d + sc_offset_days s) te \<and> 0 < sc_offset_days s
          \<and> ts < 86400 \<and> 0 \<le> te \<longrightarrow>
         instant (ph_start p) < instant (ph_end p)"
    using i o by auto
  have c3: "z d ts = z (d + sc_offset_days s) te \<and> sc_offset_days s = 0 \<and> te \<le> ts \<longrightarrow>
         \<not> instant (ph_start p) < instant (ph_end p)"
    using i by auto
  from ts te z s1 e1 i c1 c2 c3 show ?thesis by blast
qed

text \<open>
  The statement of the specification, that \<open>start < end\<close> holds of every emitted phase,
  fails on a schedule row of 10:00:00 to 09:00:00 with \<open>offset_days = 0\<close>: the one phase
  of 2024-02-06 is emitted, and it ends an hour before it starts.
\<close>

theorem inverted_schedule_emits_end_before_start:
  "map (\<lambda>p. (date_isoformat (z_date (ph_start p)), z_time (ph_start p), z_utcoffset (ph_start p),
              date_isoformat (z_date (ph_end p)), z_time (ph_end p), z_utcoffset (ph_end p),
              instant (ph_start p) < instant (ph_end p),
              instant (ph_start p) - instant (ph_end p)))
     (fst (generate_phases example_env inverted_store nyse
             (Str ''2024-02-06'') (Str ''2024-02-06'')))
   = [(''2024-02-06'', 36000, - 18000, ''2024-02-06'', 32400, - 18000, False, 3600)]
   \<and> snd (generate_phases example_env inverted_store nyse
             (Str ''2024-02-06'') (Str ''2024-02-06'')) = Finished"
  by code_simp

text \<open>
  The four phases of the window 2024-02-06 of the example market: the overnight sessions
  end on the next day, eight hours after they start.
\<close>

theorem phase_start_before_end_under_local_order_witness:
  "validate_range example_env (Str ''2024-02-06'') (Str ''2024-02-06'')
     = Inr (ymd2ord 2024 2 6, ymd2ord 2024 2 6)
   \<and> map (\<lambda>(d, s, p). (date_isoformat d, sc_start s, sc_end s, sc_offset_days s,
                        instant (ph_end p) - instant (ph_start p)))
        (fst (generate_emissions example_env phase_store nyse
                (Str ''2024-02-06'') (Str ''2024-02-06'')))
      = [(''2024-02-05'', ''20:00:00'', ''04:00:00'', 1, 28800),
         (''2024-02-06'', ''04:00:00'', ''09:30:00'', 0, 19800),
         (''2024-02-06'', ''09:30:00'', ''16:00:00'', 0, 23400),
         (''2024-02-06'', ''20:00:00'', ''04:00:00'', 1, 28800)]
   \<and> list_all (\<lambda>(d, s, p). \<exists>ts te. time_fromisoformat example_env (sc_start s) = Some ts
                  \<and> time_fromisoformat example_env (sc_end s) = Some te
                  \<and> z_date (ph_start p) = d \<and> z_time (ph_start p) = ts
                  \<and> z_date (ph_end p) = d + sc_offset_days s \<and> z_time (ph_end p) = te)
        (fst (generate_emissions example_env phase_store nyse
                (Str ''2024-02-06'') (Str ''2024-02-06'')))"
proof -
  have v: "validate_range example_env (Str ''2024-02-06'') (Str ''2024-02-06'')
     = Inr (ymd2ord 2024 2 6, ymd2ord 2024 2 6)"
    by code_simp
  have e: "map (\<lambda>(d, s, p). (date_isoformat d, sc_start s, sc_end s, sc_offset_days s,
                        instant (ph_end p) - instant (ph_start p)))
        (fst (generate_emissions example_env phase_store nyse
                (Str ''2024-02-06'') (Str ''2024-02-06'')))
      = [(''2024-02-05'', ''20:00:00'', ''04:00:00'', 1, 28800),
         (''2024-02-06'', ''04:00:00'', ''09:30:00'', 0, 19800),
         (''2024-02-06'', ''09:30:00'', ''16:00:00'', 0, 23400),
         (''2024-02-06'', ''20:00:00'', ''04:00:00'', 1, 28800)]"
    by code_simp
  have "\<exists>ts te. time_fromisoformat example_env (sc_start s) = Some ts
                  \<and> time_fromisoformat example_env (sc_end s) = Some te
                  \<and> z_date (ph_start p) = d \<and> z_time (ph_start p) = ts
                  \<and> z_date (ph_end p) = d + sc_offset_days s \<and> z_time (ph_end p) = te"
    if m: "(d, s, p) \<in> set (fst (generate_emissions example_env phase_store nyse
                (Str ''2024-02-06'') (Str ''2024-02-06'')))" for d s p
  proof -
    from phase_start_before_end_under_local_order[OF v m]
    obtain ts te z where "time_fromisoformat example_env (sc_start s) = Some ts"
      "time_fromisoformat example_env (sc_end s) = Some te"
      "ph_start p = \<lparr>z_date = d, z_time = ts, z_utcoffset = z d ts\<rparr>"
      "ph_end p = \<lparr>z_date = d + sc_offset_days s, z_time = te,
                   z_utcoffset = z (d + sc_offset_days s) te\<rparr>"
      by blast
    then show ?thesis by simp
  qed
  then have "list_all (\<lambda>(d, s, p). \<exists>ts te. time_fromisoformat example_env (sc_start s) = Some ts
                  \<and> time_fromisoformat example_env (sc_end s) = Some te
                  \<and> z_date (ph_start p) = d \<and> z_time (ph_start p) = ts
                  \<and> z_date (ph_end p) = d + sc_offset_days s \<and> z_time (ph_end p) = te)
        (fst (generate_emissions example_env phase_store nyse
                (Str ''2024-02-06'') (Str ''2024-02-06'')))"
    by (auto simp: list_all_iff)
  with v e show ?thesis by blast
qed

section \<open>Validation of the date range\<close>



end
